theory Spec2Isabelle
  imports Main
begin

section \<open>JavaScript values\<close>

text \<open>
  The hooks and interceptors of the repository work on untyped JSON-like values
  (\<^verbatim>\<open>any\<close>, \<^verbatim>\<open>unknown\<close>, \<^verbatim>\<open>Record<string, any>\<close>), so the model has one type of values.
  An object is the list of its own enumerable properties in the order \<^verbatim>\<open>Object.keys\<close>
  reports them; a well-formed object has distinct keys. Numbers are the integers
  (status codes, ids, counters); strings are byte strings, read as the UTF-8 form of
  the JavaScript string.
\<close>

datatype jsval =
    JUndefined
  | JNull
  | JBool bool
  | JNum int
  | JStr string
  | JArr "jsval list"
  | JObj "(string \<times> jsval) list"

text \<open>Truthiness, as \<^verbatim>\<open>!x\<close>, \<^verbatim>\<open>x ? a : b\<close>, \<^verbatim>\<open>x || y\<close> and \<^verbatim>\<open>x && y\<close> test it.\<close>

fun truthy :: "jsval \<Rightarrow> bool" where
  "truthy JUndefined = False"
| "truthy JNull = False"
| "truthy (JBool b) = b"
| "truthy (JNum n) = (n \<noteq> 0)"
| "truthy (JStr s) = (s \<noteq> [])"
| "truthy (JArr vs) = True"
| "truthy (JObj kvs) = True"

text \<open>\<^verbatim>\<open>x === null || x === undefined\<close>, also the test behind \<^verbatim>\<open>??\<close> and \<^verbatim>\<open>?.\<close>.\<close>

fun nullish :: "jsval \<Rightarrow> bool" where
  "nullish JUndefined = True"
| "nullish JNull = True"
| "nullish v = False"

text \<open>The operators \<^verbatim>\<open>a || b\<close> and \<^verbatim>\<open>a ?? b\<close>.\<close>

definition js_or :: "jsval \<Rightarrow> jsval \<Rightarrow> jsval" where
  "js_or a b = (if truthy a then a else b)"

definition js_coalesce :: "jsval \<Rightarrow> jsval \<Rightarrow> jsval" where
  "js_coalesce a b = (if nullish a then b else a)"

text \<open>
  Property read \<^verbatim>\<open>v?.k\<close> for the property names the code uses (\<^verbatim>\<open>statusCode\<close>,
  \<^verbatim>\<open>error\<close>, \<^verbatim>\<open>message\<close>, \<^verbatim>\<open>data\<close>, \<^verbatim>\<open>id\<close>, \<^verbatim>\<open>payload\<close> and the keys of a param
  mapping): an object gives the property's value or \<^verbatim>\<open>undefined\<close>, everything else
  gives \<^verbatim>\<open>undefined\<close>.
\<close>

fun get_prop :: "jsval \<Rightarrow> string \<Rightarrow> jsval" where
  "get_prop (JObj kvs) k = (case map_of kvs k of Some v \<Rightarrow> v | None \<Rightarrow> JUndefined)"
| "get_prop v k = JUndefined"

text \<open>
  The operator \<^verbatim>\<open>k in v\<close> on a value already known to be a non-null object, for the
  names \<^verbatim>\<open>id\<close> and \<^verbatim>\<open>payload\<close>, which are no index and no built-in property of an array.
\<close>

fun has_prop :: "jsval \<Rightarrow> string \<Rightarrow> bool" where
  "has_prop (JObj kvs) k = (k \<in> set (map fst kvs))"
| "has_prop v k = False"

text \<open>\<^verbatim>\<open>typeof v === 'object'\<close>: true of objects, arrays and \<^verbatim>\<open>null\<close>.\<close>

fun typeof_object :: "jsval \<Rightarrow> bool" where
  "typeof_object JNull = True"
| "typeof_object (JArr vs) = True"
| "typeof_object (JObj kvs) = True"
| "typeof_object v = False"

subsection \<open>Conversion to string\<close>

text \<open>\<^verbatim>\<open>Array.prototype.join\<close> on strings.\<close>

fun join :: "string \<Rightarrow> string list \<Rightarrow> string" where
  "join sep [] = []"
| "join sep [x] = x"
| "join sep (x # y # ys) = x @ sep @ join sep (y # ys)"

fun string_of_nat :: "nat \<Rightarrow> string" where
  "string_of_nat n =
     (if n < 10 then [''0123456789'' ! n]
      else string_of_nat (n div 10) @ [''0123456789'' ! (n mod 10)])"

definition string_of_int :: "int \<Rightarrow> string" where
  "string_of_int i = (if i < 0 then CHR ''-'' # string_of_nat (nat (- i)) else string_of_nat (nat i))"

text \<open>
  The abstract operation ToString, which template literals, \<^verbatim>\<open>encodeURIComponent\<close>,
  \<^verbatim>\<open>new Error\<close> and \<^verbatim>\<open>toString()\<close> apply: an array joins its elements with a comma,
  \<^verbatim>\<open>null\<close> and \<^verbatim>\<open>undefined\<close> elements giving the empty string; a plain object gives
  \<^verbatim>\<open>[object Object]\<close>.
\<close>

fun ToString :: "jsval \<Rightarrow> string" where
  "ToString JUndefined = ''undefined''"
| "ToString JNull = ''null''"
| "ToString (JBool b) = (if b then ''true'' else ''false'')"
| "ToString (JNum n) = string_of_int n"
| "ToString (JStr s) = s"
| "ToString (JArr vs) = join '','' (map (\<lambda>v. if nullish v then [] else ToString v) vs)"
| "ToString (JObj kvs) = ''[object Object]''"

section \<open>Query strings\<close>

subsection \<open>encodeURIComponent\<close>

text \<open>
  \<^verbatim>\<open>encodeURIComponent\<close> keeps the letters, the digits and \<^verbatim>\<open>- _ . ! ~ * ' ( )\<close>, and
  writes every other byte of the UTF-8 form as \<^verbatim>\<open>%\<close> and two upper-case hexadecimal
  digits.
\<close>

definition unreserved :: "char \<Rightarrow> bool" where
  "unreserved c =
     (let n = (of_char c :: nat) in
        (48 \<le> n \<and> n \<le> 57) \<or> (65 \<le> n \<and> n \<le> 90) \<or> (97 \<le> n \<and> n \<le> 122)
        \<or> c \<in> set (''-_.!~*()'' @ [CHR 0x27]))"

definition hexdigit :: "nat \<Rightarrow> char" where
  "hexdigit n = ''0123456789ABCDEF'' ! n"

definition encode_char :: "char \<Rightarrow> string" where
  "encode_char c =
     (if unreserved c then [c]
      else [CHR ''%'', hexdigit ((of_char c :: nat) div 16), hexdigit ((of_char c :: nat) mod 16)])"

definition encodeURIComponent :: "string \<Rightarrow> string" where
  "encodeURIComponent s = concat (map encode_char s)"

subsection \<open>buildQueryString\<close>

text \<open>\<^verbatim>\<open>Object.keys\<close> of an object or an array (the indices as decimal strings).\<close>

fun object_keys :: "jsval \<Rightarrow> string list" where
  "object_keys (JObj kvs) = map fst kvs"
| "object_keys (JArr vs) = map string_of_nat [0..<length vs]"
| "object_keys v = []"

text \<open>\<^verbatim>\<open>params[key]\<close> for a key that \<^verbatim>\<open>Object.keys(params)\<close> reported.\<close>

fun own_value :: "jsval \<Rightarrow> string \<Rightarrow> jsval" where
  "own_value (JArr vs) k =
     (case find (\<lambda>i. string_of_nat i = k) [0..<length vs] of Some i \<Rightarrow> vs ! i | None \<Rightarrow> JUndefined)"
| "own_value v k = get_prop v k"

text \<open>The string one key contributes before the empty ones are filtered out.\<close>

definition param_segment :: "string \<Rightarrow> jsval \<Rightarrow> string" where
  "param_segment key val =
     (if nullish val then []
      else case val of
        JArr vs \<Rightarrow> join ''&'' (map (\<lambda>v. encodeURIComponent key @ ''='' @ encodeURIComponent (ToString v)) vs)
      | _ \<Rightarrow> encodeURIComponent key @ ''='' @ encodeURIComponent (ToString val))"

definition buildQueryString :: "jsval \<Rightarrow> string" where
  "buildQueryString params =
     (if \<not> truthy params \<or> \<not> typeof_object params \<or> length (object_keys params) = 0 then []
      else
        let queryString =
              join ''&'' (filter (\<lambda>param. param \<noteq> [])
                (map (\<lambda>key. param_segment key (own_value params key)) (object_keys params)))
        in if queryString \<noteq> [] then ''?'' @ queryString else [])"

text \<open>
  The reading of a query string that the properties below are stated in: the text after
  the leading \<^verbatim>\<open>?\<close>, cut at every \<^verbatim>\<open>&\<close>, and the key of a pair, its text before the
  first \<^verbatim>\<open>=\<close>.
\<close>

fun split_on :: "char \<Rightarrow> string \<Rightarrow> string list" where
  "split_on sep [] = [[]]"
| "split_on sep (c # cs) =
     (if c = sep then [] # split_on sep cs
      else (case split_on sep cs of f # fs \<Rightarrow> (c # f) # fs | [] \<Rightarrow> [[c]]))"

definition pairs_of :: "string \<Rightarrow> string list" where
  "pairs_of qs = (if qs = [] then [] else split_on CHR ''&'' (tl qs))"

definition pair_key :: "string \<Rightarrow> string" where
  "pair_key p = takeWhile (\<lambda>c. c \<noteq> CHR ''='') p"

definition key_value_pair :: "string \<Rightarrow> jsval \<Rightarrow> string" where
  "key_value_pair k v = encodeURIComponent k @ ''='' @ encodeURIComponent (ToString v)"

definition key_pairs :: "string \<Rightarrow> jsval \<Rightarrow> string list" where
  "key_pairs k v =
     (if nullish v then []
      else case v of JArr vs \<Rightarrow> map (key_value_pair k) vs | _ \<Rightarrow> [key_value_pair k v])"

definition all_pairs :: "(string \<times> jsval) list \<Rightarrow> string list" where
  "all_pairs kvs = concat (map (\<lambda>(k, v). key_pairs k v) kvs)"

section \<open>The HTTP client and its response interceptors\<close>

text \<open>
  Errors are values. \<open>Error m c\<close> is \<^verbatim>\<open>new Error(m)\<close>, with the property
  \<^verbatim>\<open>statusCode\<close> that \<^verbatim>\<open>Object.assign\<close> gave it when \<open>c\<close> is not \<open>None\<close>;
  \<open>AxiosError st m\<close> is the transport's error with \<^verbatim>\<open>error.response?.status\<close> and
  \<^verbatim>\<open>error.message\<close>; \<open>TypeError\<close> is a property read on \<^verbatim>\<open>null\<close> or
  \<^verbatim>\<open>undefined\<close>.
\<close>

datatype js_error =
    Error string "int option"
  | AxiosError "int option" string
  | TypeError

text \<open>\<^verbatim>\<open>error.response?.status\<close>.\<close>

fun response_status :: "js_error \<Rightarrow> int option" where
  "response_status (AxiosError st m) = st"
| "response_status e = None"

record request =
  req_method :: string
  req_url :: string
  req_data :: jsval
  req_headers :: "(string \<times> string) list option"

text \<open>An \<^verbatim>\<open>AxiosResponse\<close>: the HTTP status and the parsed body.\<close>

record axios_response =
  res_status :: int
  res_data :: jsval

text \<open>
  How a request settles before the response interceptors see it. The request
  interceptors, the adapter and the client's status validation are the environment: a
  function from the request to \<open>settled\<close>.
\<close>

datatype settled = Fulfilled axios_response | Rejected js_error

text \<open>
  The client's status validation. Neither variant passes \<^verbatim>\<open>validateStatus\<close> to
  \<^verbatim>\<open>axios.create\<close>, so the library's default applies to what the server answered: a
  response with a status from 200 to 299 is fulfilled, and any other is rejected with an
  error that carries the response's status and the message
  \<^verbatim>\<open>Request failed with status code N\<close>.
\<close>

definition axios_settle :: "axios_response \<Rightarrow> settled" where
  "axios_settle res =
     (if 200 \<le> res_status res \<and> res_status res < 300 then Fulfilled res
      else Rejected (AxiosError (Some (res_status res))
                       (''Request failed with status code '' @ string_of_int (res_status res))))"

record browser =
  localStorage :: "string \<rightharpoonup> string"
  location_href :: string

subsection \<open>First variant of \<^verbatim>\<open>config/instance/instance.ts\<close> (default export)\<close>

definition response_success_1 :: "axios_response \<Rightarrow> js_error + jsval" where
  "response_success_1 res =
     (if \<not> truthy (res_data res) then Inl (Error ''Error in response'' None)
      else
        let statusCode = res_status res;
            hasSuccess = (statusCode = 200 \<or> statusCode = 201)
        in if hasSuccess then Inr (res_data res) else Inr JUndefined)"

definition response_error_1 :: "js_error \<Rightarrow> browser \<Rightarrow> js_error \<times> browser" where
  "response_error_1 error b =
     (let status = response_status error;
          b1 = (if status = Some 401 then b\<lparr>localStorage := Map.empty\<rparr> else b)
      in (error, b1))"

definition Instance_request_1 ::
  "(request \<Rightarrow> settled) \<Rightarrow> request \<Rightarrow> browser \<Rightarrow> (js_error + jsval) \<times> browser" where
  "Instance_request_1 send config b =
     (case send config of
        Fulfilled res \<Rightarrow> (response_success_1 res, b)
      | Rejected error \<Rightarrow> (let (e, b1) = response_error_1 error b in (Inl e, b1)))"

definition Instance_put_1 ::
  "(request \<Rightarrow> settled) \<Rightarrow> request \<Rightarrow> browser \<Rightarrow> (js_error + jsval) \<times> browser" where
  "Instance_put_1 send config b = Instance_request_1 send (config\<lparr>req_method := ''PUT''\<rparr>) b"

subsection \<open>Second variant of \<^verbatim>\<open>config/instance/instance.ts\<close> (export \<^verbatim>\<open>instance\<close>)\<close>

definition response_success_2 :: "axios_response \<Rightarrow> js_error + axios_response" where
  "response_success_2 res =
     (if \<not> truthy (res_data res) then Inl (Error ''Error in response'' None)
      else
        let statusCode = get_prop (res_data res) ''statusCode'';
            error = get_prop (res_data res) ''error'';
            hasSuccess = ((statusCode = JNum 200 \<or> statusCode = JNum 201) \<and> error = JBool False)
        in if hasSuccess then Inr res
           else Inl (Error (ToString (js_or (get_prop (res_data res) ''message'')
                                            (JStr ''Unknown API error''))) None))"

text \<open>
  The error handler is asynchronous and awaits \<^verbatim>\<open>signOut()\<close> of the authentication
  library, which is a parameter here: it gives the browser state it leaves, or the error
  it rejects with. \<open>has_window\<close> is \<^verbatim>\<open>typeof window !== "undefined"\<close>.
\<close>

definition response_error_2 ::
  "bool \<Rightarrow> (browser \<Rightarrow> js_error + browser) \<Rightarrow> js_error \<Rightarrow> browser \<Rightarrow> js_error \<times> browser" where
  "response_error_2 has_window signOut error b =
     (let status = response_status error in
      if status = Some 401 \<and> has_window then
        (case signOut b of
           Inl e \<Rightarrow> (e, b)
         | Inr b1 \<Rightarrow> (error, b1\<lparr>localStorage := Map.empty, location_href := ''/login''\<rparr>))
      else (error, b))"

definition Instance_request_2 ::
  "bool \<Rightarrow> (browser \<Rightarrow> js_error + browser) \<Rightarrow> (request \<Rightarrow> settled) \<Rightarrow> request \<Rightarrow> browser
     \<Rightarrow> (js_error + jsval) \<times> browser" where
  "Instance_request_2 has_window signOut send config b =
     (case send config of
        Fulfilled res \<Rightarrow>
          (case response_success_2 res of
             Inl e \<Rightarrow> (Inl e, b)
           | Inr res1 \<Rightarrow> (Inr (res_data res1), b))
      | Rejected error \<Rightarrow>
          (let (e, b1) = response_error_2 has_window signOut error b in (Inl e, b1)))"

definition Instance_get_2 ::
  "bool \<Rightarrow> (browser \<Rightarrow> js_error + browser) \<Rightarrow> (request \<Rightarrow> settled) \<Rightarrow> string \<Rightarrow> browser
     \<Rightarrow> (js_error + jsval) \<times> browser" where
  "Instance_get_2 has_window signOut send url b =
     Instance_request_2 has_window signOut send
       \<lparr>req_method = ''GET'', req_url = url, req_data = JUndefined, req_headers = None\<rparr> b"

definition Instance_put_2 ::
  "bool \<Rightarrow> (browser \<Rightarrow> js_error + browser) \<Rightarrow> (request \<Rightarrow> settled) \<Rightarrow> string \<Rightarrow> jsval
     \<Rightarrow> (string \<times> string) list option \<Rightarrow> browser \<Rightarrow> (js_error + jsval) \<times> browser" where
  "Instance_put_2 has_window signOut send url body headers b =
     Instance_request_2 has_window signOut send
       \<lparr>req_method = ''PUT'', req_url = url, req_data = body, req_headers = headers\<rparr> b"

section \<open>The hooks over the instance\<close>

text \<open>
  A hook awaits one call of the instance and interprets what it resolves with. The call
  is a parameter of the hook's function: it gives the value the promise resolves with
  (\<open>Inr\<close>) or the error it rejects with (\<open>Inl\<close>). Console output and toasts change
  neither the result nor any state below and are left out.
\<close>

subsection \<open>\<^verbatim>\<open>hooks/api/use-fetch.ts\<close>\<close>

definition useFetchData_queryFn ::
  "(string \<Rightarrow> js_error + jsval) \<Rightarrow> string \<Rightarrow> jsval \<Rightarrow> js_error + jsval" where
  "useFetchData_queryFn instance_get url params =
     (let queryString = buildQueryString params in
      case instance_get (url @ queryString) of
        Inl e \<Rightarrow> Inl e
      | Inr response \<Rightarrow>
          if get_prop response ''statusCode'' = JNum 200 then Inr (get_prop response ''data'')
          else Inl (Error (ToString (js_or (get_prop response ''message'')
                                           (JStr ''Failed to fetch data''))) None))"

subsection \<open>\<^verbatim>\<open>hooks/api/use-put.ts\<close> and \<^verbatim>\<open>hooks/use-put-data.ts\<close>\<close>

text \<open>
  The two files have the same \<^verbatim>\<open>mutationFn\<close>; they differ in how they hand the URL, the
  body and the headers to \<^verbatim>\<open>instance.put\<close> (three arguments, or one config object).
  \<open>put_request\<close> is its first part, which chooses \<^verbatim>\<open>finalUrl\<close> and \<^verbatim>\<open>requestData\<close>.
\<close>

definition put_request :: "string \<Rightarrow> jsval \<Rightarrow> string \<times> jsval" where
  "put_request url variables =
     (if typeof_object variables \<and> variables \<noteq> JNull
         \<and> has_prop variables ''id'' \<and> has_prop variables ''payload''
      then
        let idv = get_prop variables ''id'';
            payload = get_prop variables ''payload''
        in (if truthy idv then url @ ''/'' @ ToString idv else url, payload)
      else (url, variables))"

definition usePutData_mutationFn ::
  "(string \<Rightarrow> jsval \<Rightarrow> (string \<times> string) list option \<Rightarrow> js_error + jsval)
     \<Rightarrow> string \<Rightarrow> (string \<times> string) list option \<Rightarrow> jsval \<Rightarrow> js_error + jsval" where
  "usePutData_mutationFn instance_put url headers variables =
     (let (finalUrl, requestData) = put_request url variables in
      case instance_put finalUrl requestData headers of
        Inl e \<Rightarrow> Inl e
      | Inr response \<Rightarrow>
          let statusCode = get_prop response ''statusCode'' in
          if statusCode = JNum 200 \<or> statusCode = JNum 201 then Inr (get_prop response ''data'')
          else
            let errorMessage =
                  ToString (js_coalesce (get_prop response ''message'')
                                        (JStr ''An error occurred while updating data''))
            in if statusCode = JNum 400 then Inl (Error errorMessage (Some 400))
               else if statusCode = JNum 401 then Inl (Error ''Unauthorized'' (Some 401))
               else Inl (Error errorMessage None))"

section \<open>The optimistic hooks \<^verbatim>\<open>usePut\<close> and \<^verbatim>\<open>useDelete\<close>\<close>

subsection \<open>The query client and the mutation engine\<close>

text \<open>
  The state the two hooks act on: the data the query cache holds under the key
  \<^verbatim>\<open>[k]\<close> (\<open>JUndefined\<close> when it holds none), the keys invalidated so far, and the
  requests handed to the demo HTTP client so far. The cache is the caching library's;
  the model follows its documented behaviour: \<^verbatim>\<open>getQueryData\<close> gives \<^verbatim>\<open>undefined\<close> for
  a key without data, \<^verbatim>\<open>setQueryData\<close> with the value \<^verbatim>\<open>undefined\<close> changes nothing, and
  \<^verbatim>\<open>cancelQueries\<close> and \<^verbatim>\<open>invalidateQueries\<close> leave the data as it is.
\<close>

record client_state =
  queries :: "jsval \<Rightarrow> jsval"
  invalidated :: "jsval list"
  requests :: "request list"

definition getQueryData :: "client_state \<Rightarrow> jsval \<Rightarrow> jsval" where
  "getQueryData st k = queries st k"

definition setQueryData :: "client_state \<Rightarrow> jsval \<Rightarrow> jsval \<Rightarrow> client_state" where
  "setQueryData st k v = (if v = JUndefined then st else st\<lparr>queries := (queries st)(k := v)\<rparr>)"

definition invalidateQueries_key :: "client_state \<Rightarrow> jsval \<Rightarrow> client_state" where
  "invalidateQueries_key st k = st\<lparr>invalidated := invalidated st @ [k]\<rparr>"

text \<open>
  The options of both hooks. A field is \<open>None\<close> when the caller gave no such option.
  The callbacks a caller may pass act on the same state.
\<close>

record mutation_options =
  invalidateQueries :: "string list option"
  onMutate :: "(jsval \<Rightarrow> client_state \<Rightarrow> jsval \<times> client_state) option"
  onSuccess :: "(jsval \<Rightarrow> jsval \<Rightarrow> jsval \<Rightarrow> client_state \<Rightarrow> client_state) option"
  onError :: "(js_error \<Rightarrow> jsval \<Rightarrow> jsval \<Rightarrow> client_state \<Rightarrow> client_state) option"

record put_options = mutation_options +
  http_method :: "string option"

record delete_options = mutation_options +
  confirmMessage :: "string option"

text \<open>
  One \<^verbatim>\<open>mutate\<close> call as the caching library runs it: \<^verbatim>\<open>onMutate\<close>, then
  \<^verbatim>\<open>mutationFn\<close>, then \<^verbatim>\<open>onSuccess\<close> with the data or \<^verbatim>\<open>onError\<close> with the error and
  the context \<^verbatim>\<open>onMutate\<close> returned (\<^verbatim>\<open>undefined\<close> when \<^verbatim>\<open>onMutate\<close> itself threw); the
  call rejects with the error after \<^verbatim>\<open>onError\<close> has run.
\<close>

definition run_mutation ::
  "(jsval \<Rightarrow> client_state \<Rightarrow> js_error + jsval \<times> client_state)
     \<Rightarrow> (jsval \<Rightarrow> client_state \<Rightarrow> (js_error + jsval) \<times> client_state)
     \<Rightarrow> (jsval \<Rightarrow> jsval \<Rightarrow> jsval \<Rightarrow> client_state \<Rightarrow> client_state)
     \<Rightarrow> (js_error \<Rightarrow> jsval \<Rightarrow> jsval \<Rightarrow> client_state \<Rightarrow> client_state)
     \<Rightarrow> jsval \<Rightarrow> client_state \<Rightarrow> (js_error + jsval) \<times> client_state" where
  "run_mutation on_mutate mutation_fn on_success on_error variables st =
     (case on_mutate variables st of
        Inl e \<Rightarrow> (Inl e, on_error e variables JUndefined st)
      | Inr (context, st1) \<Rightarrow>
          (case mutation_fn variables st1 of
             (Inl e, st2) \<Rightarrow> (Inl e, on_error e variables context st2)
           | (Inr d, st2) \<Rightarrow> (Inr d, on_success d variables context st2)))"

text \<open>
  The demo HTTP client \<^verbatim>\<open>axiosDemo\<close> hands responses and errors through its
  interceptors unchanged; a call of it appends the request to \<open>requests\<close>.
\<close>

definition axiosDemo_request ::
  "(request \<Rightarrow> settled) \<Rightarrow> request \<Rightarrow> client_state \<Rightarrow> (js_error + axios_response) \<times> client_state" where
  "axiosDemo_request axiosDemo req st =
     (let st1 = st\<lparr>requests := requests st @ [req]\<rparr> in
      case axiosDemo req of
        Fulfilled res \<Rightarrow> (Inr res, st1)
      | Rejected e \<Rightarrow> (Inl e, st1))"

subsection \<open>\<^verbatim>\<open>usePut\<close>\<close>

definition usePut_mutationFn ::
  "(request \<Rightarrow> settled) \<Rightarrow> string \<Rightarrow> put_options \<Rightarrow> jsval \<Rightarrow> client_state
     \<Rightarrow> (js_error + jsval) \<times> client_state" where
  "usePut_mutationFn axiosDemo url options body st =
     (let m = (case http_method options of Some m \<Rightarrow> if m \<noteq> [] then m else ''PUT'' | None \<Rightarrow> ''PUT'') in
      case axiosDemo_request axiosDemo
             \<lparr>req_method = (if m = ''PUT'' then ''PUT'' else ''PATCH''), req_url = url,
              req_data = body, req_headers = None\<rparr> st of
        (Inl e, st1) \<Rightarrow> (Inl e, st1)
      | (Inr res, st1) \<Rightarrow> (Inr (res_data res), st1))"

definition usePut_onMutate ::
  "put_options \<Rightarrow> jsval \<Rightarrow> client_state \<Rightarrow> js_error + jsval \<times> client_state" where
  "usePut_onMutate options variables st =
     (case invalidateQueries options of
        Some (queryKey # rest) \<Rightarrow>
          let previousData = getQueryData st (JStr queryKey);
              st1 = setQueryData st (JStr queryKey) variables
          in Inr (JObj [(''previousData'', previousData), (''queryKey'', JStr queryKey)], st1)
      | _ \<Rightarrow> (case onMutate options of Some f \<Rightarrow> Inr (f variables st) | None \<Rightarrow> Inr (JUndefined, st)))"

definition usePut_onSuccess ::
  "put_options \<Rightarrow> jsval \<Rightarrow> jsval \<Rightarrow> jsval \<Rightarrow> client_state \<Rightarrow> client_state" where
  "usePut_onSuccess options d variables context st =
     (let st1 = (case invalidateQueries options of
                   Some keys \<Rightarrow> foldl invalidateQueries_key st (map JStr keys)
                 | None \<Rightarrow> st)
      in case onSuccess options of Some f \<Rightarrow> f d variables context st1 | None \<Rightarrow> st1)"

definition usePut_onError ::
  "put_options \<Rightarrow> js_error \<Rightarrow> jsval \<Rightarrow> jsval \<Rightarrow> client_state \<Rightarrow> client_state" where
  "usePut_onError options error variables context st =
     (let st1 = (if truthy (get_prop context ''previousData'') \<and> truthy (get_prop context ''queryKey'')
                 then setQueryData st (get_prop context ''queryKey'') (get_prop context ''previousData'')
                 else st)
      in case onError options of Some f \<Rightarrow> f error variables context st1 | None \<Rightarrow> st1)"

text \<open>
  The hook passes \<^verbatim>\<open>{mutationFn, onMutate, onSuccess, onError, ...options}\<close> to the
  caching library: the options are spread last, so a callback the caller gave replaces
  the hook's handler of that name.
\<close>

definition usePut_mutate ::
  "(request \<Rightarrow> settled) \<Rightarrow> string \<Rightarrow> put_options \<Rightarrow> jsval \<Rightarrow> client_state
     \<Rightarrow> (js_error + jsval) \<times> client_state" where
  "usePut_mutate axiosDemo url options variables st =
     run_mutation
       (case onMutate options of Some f \<Rightarrow> (\<lambda>v s. Inr (f v s)) | None \<Rightarrow> usePut_onMutate options)
       (usePut_mutationFn axiosDemo url options)
       (case onSuccess options of Some f \<Rightarrow> f | None \<Rightarrow> usePut_onSuccess options)
       (case onError options of Some f \<Rightarrow> f | None \<Rightarrow> usePut_onError options)
       variables st"

subsection \<open>\<^verbatim>\<open>useDelete\<close>\<close>

text \<open>\<open>confirm\<close> is \<^verbatim>\<open>window.confirm\<close>: the user's answer to the prompt with that message.\<close>

definition useDelete_mutationFn ::
  "(string \<Rightarrow> bool) \<Rightarrow> (request \<Rightarrow> settled) \<Rightarrow> string \<Rightarrow> delete_options \<Rightarrow> jsval \<Rightarrow> client_state
     \<Rightarrow> (js_error + jsval) \<times> client_state" where
  "useDelete_mutationFn confirm axiosDemo url options idv st =
     (if (case confirmMessage options of Some msg \<Rightarrow> msg \<noteq> [] \<and> \<not> confirm msg | None \<Rightarrow> False)
      then (Inl (Error ''Deletion cancelled'' None), st)
      else
        case axiosDemo_request axiosDemo
               \<lparr>req_method = ''DELETE'', req_url = url @ ''/'' @ ToString idv,
                req_data = JUndefined, req_headers = None\<rparr> st of
          (Inl e, st1) \<Rightarrow> (Inl e, st1)
        | (Inr res, st1) \<Rightarrow> (Inr (res_data res), st1))"

text \<open>
  The updater \<^verbatim>\<open>old.filter((item) => item.id?.toString() !== id)\<close>: the read of
  \<^verbatim>\<open>item.id\<close> throws on an item that is \<^verbatim>\<open>null\<close> or \<^verbatim>\<open>undefined\<close>.
\<close>

definition item_kept :: "jsval \<Rightarrow> jsval \<Rightarrow> bool" where
  "item_kept idv item =
     ((if nullish (get_prop item ''id'') then JUndefined else JStr (ToString (get_prop item ''id''))) \<noteq> idv)"

definition remove_item :: "jsval \<Rightarrow> jsval \<Rightarrow> js_error + jsval" where
  "remove_item idv old =
     (case old of
        JArr items \<Rightarrow> if list_ex nullish items then Inl TypeError else Inr (JArr (filter (item_kept idv) items))
      | _ \<Rightarrow> Inr old)"

definition useDelete_onMutate ::
  "delete_options \<Rightarrow> jsval \<Rightarrow> client_state \<Rightarrow> js_error + jsval \<times> client_state" where
  "useDelete_onMutate options idv st =
     (case invalidateQueries options of
        Some (queryKey # rest) \<Rightarrow>
          let previousData = getQueryData st (JStr queryKey) in
          (case remove_item idv (getQueryData st (JStr queryKey)) of
             Inl e \<Rightarrow> Inl e
           | Inr new \<Rightarrow>
               Inr (JObj [(''previousData'', previousData), (''queryKey'', JStr queryKey)],
                    setQueryData st (JStr queryKey) new))
      | _ \<Rightarrow> (case onMutate options of Some f \<Rightarrow> Inr (f idv st) | None \<Rightarrow> Inr (JUndefined, st)))"

definition useDelete_onSuccess ::
  "delete_options \<Rightarrow> jsval \<Rightarrow> jsval \<Rightarrow> jsval \<Rightarrow> client_state \<Rightarrow> client_state" where
  "useDelete_onSuccess options d idv context st =
     (let st1 = (case invalidateQueries options of
                   Some keys \<Rightarrow> foldl invalidateQueries_key st (map JStr keys)
                 | None \<Rightarrow> st)
      in case onSuccess options of Some f \<Rightarrow> f d idv context st1 | None \<Rightarrow> st1)"

definition useDelete_onError ::
  "delete_options \<Rightarrow> js_error \<Rightarrow> jsval \<Rightarrow> jsval \<Rightarrow> client_state \<Rightarrow> client_state" where
  "useDelete_onError options error idv context st =
     (let st1 = (if truthy (get_prop context ''previousData'') \<and> truthy (get_prop context ''queryKey'')
                 then setQueryData st (get_prop context ''queryKey'') (get_prop context ''previousData'')
                 else st)
      in case onError options of Some f \<Rightarrow> f error idv context st1 | None \<Rightarrow> st1)"

definition useDelete_mutate ::
  "(string \<Rightarrow> bool) \<Rightarrow> (request \<Rightarrow> settled) \<Rightarrow> string \<Rightarrow> delete_options \<Rightarrow> jsval \<Rightarrow> client_state
     \<Rightarrow> (js_error + jsval) \<times> client_state" where
  "useDelete_mutate confirm axiosDemo url options idv st =
     run_mutation
       (case onMutate options of Some f \<Rightarrow> (\<lambda>v s. Inr (f v s)) | None \<Rightarrow> useDelete_onMutate options)
       (useDelete_mutationFn confirm axiosDemo url options)
       (case onSuccess options of Some f \<Rightarrow> f | None \<Rightarrow> useDelete_onSuccess options)
       (case onError options of Some f \<Rightarrow> f | None \<Rightarrow> useDelete_onError options)
       idv st"

section \<open>Properties of the query string\<close>

lemma split_on_ne: "split_on sep s \<noteq> []"
  by (induction s) (auto split: list.splits)

lemma split_on_no_sep: "sep \<notin> set s \<Longrightarrow> split_on sep s = [s]"
  by (induction s) auto

lemma split_on_append_sep:
  "sep \<notin> set s \<Longrightarrow> split_on sep (s @ sep # t) = s # split_on sep t"
  by (induction s) auto

lemma split_on_join:
  "ps \<noteq> [] \<Longrightarrow> \<forall>p \<in> set ps. sep \<notin> set p \<Longrightarrow> split_on sep (join [sep] ps) = ps"
proof (induction ps)
  case Nil
  then show ?case by simp
next
  case (Cons x xs)
  show ?case
  proof (cases xs)
    case Nil
    with Cons.prems show ?thesis by (simp add: split_on_no_sep)
  next
    case (Cons y ys)
    with Cons.IH Cons.prems have "split_on sep (join [sep] (y # ys)) = y # ys" by simp
    with Cons Cons.prems show ?thesis by (simp add: split_on_append_sep)
  qed
qed

lemma join_append:
  "join sep (xs @ ys) =
     (if xs = [] then join sep ys else if ys = [] then join sep xs
      else join sep xs @ sep @ join sep ys)"
proof (induction xs)
  case Nil
  then show ?case by simp
next
  case (Cons x xs)
  show ?case
  proof (cases xs)
    case Nil
    then show ?thesis by (cases ys) simp_all
  next
    case (Cons z zs)
    with Cons.IH show ?thesis by simp
  qed
qed

lemma join_eq_Nil: "\<forall>p \<in> set ps. p \<noteq> [] \<Longrightarrow> join sep ps = [] \<longleftrightarrow> ps = []"
  by (induction sep ps rule: join.induct) auto

lemma join_segments:
  "\<forall>ps \<in> set pss. \<forall>p \<in> set ps. p \<noteq> [] \<Longrightarrow>
   join sep (filter (\<lambda>s. s \<noteq> []) (map (join sep) pss)) = join sep (concat pss)"
proof (induction pss)
  case Nil
  then show ?case by simp
next
  case (Cons ps pss)
  then have IH: "join sep (filter (\<lambda>s. s \<noteq> []) (map (join sep) pss)) = join sep (concat pss)"
    by simp
  have ne: "\<forall>p \<in> set ps. p \<noteq> []" using Cons.prems by simp
  have ne': "\<forall>p \<in> set (concat pss). p \<noteq> []" using Cons.prems by auto
  have f: "\<forall>p \<in> set (filter (\<lambda>s. s \<noteq> []) (map (join sep) pss)). p \<noteq> []" by simp
  show ?case
  proof (cases "ps = []")
    case True
    then show ?thesis using IH by simp
  next
    case False
    then have j: "join sep ps \<noteq> []" using join_eq_Nil[OF ne] by simp
    have "join sep (join sep ps # filter (\<lambda>s. s \<noteq> []) (map (join sep) pss)) =
          join sep (ps @ concat pss)"
    proof (cases "concat pss = []")
      case True
      have "join sep (concat pss) = []" by (simp only: True join.simps)
      then have "join sep (filter (\<lambda>s. s \<noteq> []) (map (join sep) pss)) = []"
        by (simp only: IH)
      then have "filter (\<lambda>s. s \<noteq> []) (map (join sep) pss) = []"
        using join_eq_Nil[OF f] by simp
      then show ?thesis by (simp add: True)
    next
      case c: False
      then have "join sep (filter (\<lambda>s. s \<noteq> []) (map (join sep) pss)) \<noteq> []"
        using IH join_eq_Nil[OF ne'] by simp
      then obtain z zs where z: "filter (\<lambda>s. s \<noteq> []) (map (join sep) pss) = z # zs"
        by (cases "filter (\<lambda>s. s \<noteq> []) (map (join sep) pss)") auto
      show ?thesis using False c IH z by (auto simp add: join_append)
    qed
    then show ?thesis using j by simp
  qed
qed

lemma amp_notin_hexdigit: "n < 16 \<Longrightarrow> hexdigit n \<noteq> CHR ''&'' \<and> hexdigit n \<noteq> CHR ''=''"
proof -
  assume "n < 16"
  then have "hexdigit n \<in> set ''0123456789ABCDEF''"
    unfolding hexdigit_def by (intro nth_mem) simp
  then show ?thesis by auto
qed

lemma unreserved_not_sep: "unreserved c \<Longrightarrow> c \<noteq> CHR ''&'' \<and> c \<noteq> CHR ''=''"
  by (auto simp: unreserved_def)

lemma encode_char_no_sep: "CHR ''&'' \<notin> set (encode_char c) \<and> CHR ''='' \<notin> set (encode_char c)"
proof -
  have "(of_char c :: nat) < 256" by (rule nat_of_char_less_256)
  then have "(of_char c :: nat) div 16 < 16" "(of_char c :: nat) mod 16 < 16" by arith+
  then have "hexdigit ((of_char c :: nat) div 16) \<noteq> CHR ''&''"
    "hexdigit ((of_char c :: nat) div 16) \<noteq> CHR ''=''"
    "hexdigit ((of_char c :: nat) mod 16) \<noteq> CHR ''&''"
    "hexdigit ((of_char c :: nat) mod 16) \<noteq> CHR ''=''"
    using amp_notin_hexdigit by blast+
  then show ?thesis
    using unreserved_not_sep[of c] by (auto simp: encode_char_def)
qed

lemma encodeURIComponent_no_sep:
  "CHR ''&'' \<notin> set (encodeURIComponent s) \<and> CHR ''='' \<notin> set (encodeURIComponent s)"
  using encode_char_no_sep by (auto simp: encodeURIComponent_def)

lemma key_value_pair_props:
  "key_value_pair k v \<noteq> [] \<and> CHR ''&'' \<notin> set (key_value_pair k v)
   \<and> pair_key (key_value_pair k v) = encodeURIComponent k"
  using encodeURIComponent_no_sep
  by (auto simp: key_value_pair_def pair_key_def takeWhile_append)


lemma hexdigit_inj: "m < 16 \<Longrightarrow> n < 16 \<Longrightarrow> hexdigit m = hexdigit n \<Longrightarrow> m = n"
proof -
  assume a: "m < 16" "n < 16" "hexdigit m = hexdigit n"
  have d: "distinct ''0123456789ABCDEF''" by simp
  have l: "length ''0123456789ABCDEF'' = 16" by simp
  from a show ?thesis
    unfolding hexdigit_def using nth_eq_iff_index_eq[OF d, of m n] l by simp
qed

lemma percent_reserved: "\<not> unreserved CHR ''%''"
  by (simp add: unreserved_def)

lemma encode_char_inj:
  assumes "encode_char c @ xs = encode_char d @ ys"
  shows "c = d \<and> xs = ys"
proof -
  let ?m = "of_char c :: nat" and ?n = "of_char d :: nat"
  have b: "?m div 16 < 16" "?m mod 16 < 16" "?n div 16 < 16" "?n mod 16 < 16"
    using nat_of_char_less_256[of c] nat_of_char_less_256[of d] by arith+
  consider (uu) "unreserved c" "unreserved d" | (ur) "unreserved c" "\<not> unreserved d"
    | (ru) "\<not> unreserved c" "unreserved d" | (rr) "\<not> unreserved c" "\<not> unreserved d"
    by blast
  then show ?thesis
  proof cases
    case uu
    with assms show ?thesis by (simp add: encode_char_def)
  next
    case ur
    with assms have "c = CHR ''%''" by (simp add: encode_char_def)
    with ur percent_reserved show ?thesis by simp
  next
    case ru
    with assms have "d = CHR ''%''" by (simp add: encode_char_def)
    with ru percent_reserved show ?thesis by simp
  next
    case rr
    with assms have h: "hexdigit (?m div 16) = hexdigit (?n div 16)"
      "hexdigit (?m mod 16) = hexdigit (?n mod 16)" and r: "xs = ys"
      by (simp_all add: encode_char_def)
    have "?m div 16 = ?n div 16" "?m mod 16 = ?n mod 16"
      using h b hexdigit_inj by blast+
    then have "?m = ?n" by (metis div_mult_mod_eq)
    then have "c = d" by (metis char_of_char)
    with r show ?thesis by simp
  qed
qed

lemma encode_char_ne: "encode_char c \<noteq> []"
  by (simp add: encode_char_def)

lemma encodeURIComponent_inj: "encodeURIComponent s = encodeURIComponent t \<Longrightarrow> s = t"
proof (induction s arbitrary: t)
  case Nil
  then show ?case
    by (cases t) (simp_all add: encodeURIComponent_def encode_char_ne)
next
  case (Cons c cs)
  show ?case
  proof (cases t)
    case Nil
    with Cons.prems show ?thesis by (simp add: encodeURIComponent_def encode_char_ne)
  next
    case (Cons d ds)
    with Cons.prems have "encode_char c @ encodeURIComponent cs = encode_char d @ encodeURIComponent ds"
      by (simp add: encodeURIComponent_def)
    then have "c = d" "encodeURIComponent cs = encodeURIComponent ds"
      using encode_char_inj by blast+
    with Cons.IH Cons show ?thesis by simp
  qed
qed

lemma key_pairs_props:
  "p \<in> set (key_pairs k v) \<Longrightarrow> p \<noteq> [] \<and> CHR ''&'' \<notin> set p \<and> pair_key p = encodeURIComponent k"
  using key_value_pair_props by (auto simp: key_pairs_def split: if_splits jsval.splits)

lemma param_segment_join: "param_segment k v = join ''&'' (key_pairs k v)"
  by (cases v) (simp_all add: param_segment_def key_pairs_def key_value_pair_def[abs_def])

lemma own_values_distinct:
  assumes "distinct (map fst kvs)"
  shows "map (\<lambda>key. f key (get_prop (JObj kvs) key)) (map fst kvs) = map (\<lambda>(k, v). f k v) kvs"
proof -
  have "f (fst kv) (get_prop (JObj kvs) (fst kv)) = (case kv of (k, v) \<Rightarrow> f k v)"
    if "kv \<in> set kvs" for kv
  proof -
    obtain k v where kv: "kv = (k, v)" by (cases kv)
    with that assms have "map_of kvs k = Some v" by simp
    with kv show ?thesis by simp
  qed
  then show ?thesis by (simp add: comp_def)
qed

lemma all_pairs_props:
  "p \<in> set (all_pairs kvs) \<Longrightarrow> p \<noteq> [] \<and> CHR ''&'' \<notin> set p"
  using key_pairs_props by (fastforce simp: all_pairs_def)

lemma buildQueryString_obj:
  assumes "distinct (map fst kvs)"
  shows "buildQueryString (JObj kvs) =
           (if all_pairs kvs = [] then [] else ''?'' @ join ''&'' (all_pairs kvs))"
proof (cases "kvs = []")
  case True
  then show ?thesis by (simp add: buildQueryString_def all_pairs_def)
next
  case False
  have segs: "map (\<lambda>key. param_segment key (own_value (JObj kvs) key)) (object_keys (JObj kvs))
      = map (join ''&'') (map (\<lambda>(k, v). key_pairs k v) kvs)"
    using own_values_distinct[OF assms, of param_segment]
    by (simp add: param_segment_join comp_def split_def)
  have ne: "\<forall>ps \<in> set (map (\<lambda>(k, v). key_pairs k v) kvs). \<forall>p \<in> set ps. p \<noteq> []"
    using key_pairs_props by fastforce
  have j: "join ''&'' (filter (\<lambda>param. param \<noteq> [])
             (map (\<lambda>key. param_segment key (own_value (JObj kvs) key)) (object_keys (JObj kvs))))
           = join ''&'' (all_pairs kvs)"
    unfolding segs all_pairs_def by (rule join_segments[OF ne])
  have e: "join ''&'' (all_pairs kvs) = [] \<longleftrightarrow> all_pairs kvs = []"
    using join_eq_Nil[of "all_pairs kvs"] all_pairs_props by blast
  show ?thesis
    unfolding buildQueryString_def Let_def j using False e by simp
qed

lemma pairs_of_buildQueryString:
  assumes "distinct (map fst kvs)"
  shows "pairs_of (buildQueryString (JObj kvs)) = all_pairs kvs"
proof (cases "all_pairs kvs = []")
  case True
  then show ?thesis by (simp add: buildQueryString_obj[OF assms] pairs_of_def)
next
  case False
  have "split_on CHR ''&'' (join ''&'' (all_pairs kvs)) = all_pairs kvs"
    using split_on_join[OF False, of "CHR ''&''"] all_pairs_props by blast
  with False show ?thesis by (simp add: buildQueryString_obj[OF assms] pairs_of_def)
qed

lemma filter_key_pairs_other:
  "k' \<noteq> k \<Longrightarrow> filter (\<lambda>p. pair_key p = encodeURIComponent k) (key_pairs k' v) = []"
  using key_pairs_props[of _ k' v] encodeURIComponent_inj[of k' k]
  by (auto simp: filter_empty_conv)

lemma filter_key_pairs_same:
  "filter (\<lambda>p. pair_key p = encodeURIComponent k) (key_pairs k v) = key_pairs k v"
  using key_pairs_props[of _ k v] by (simp add: filter_id_conv)

lemma filter_all_pairs_absent:
  "k \<notin> fst ` set kvs \<Longrightarrow> filter (\<lambda>p. pair_key p = encodeURIComponent k) (all_pairs kvs) = []"
proof (induction kvs)
  case Nil
  then show ?case by (simp add: all_pairs_def)
next
  case (Cons kv kvs)
  obtain k' v' where kv: "kv = (k', v')" by (cases kv)
  with Cons.prems have "k' \<noteq> k" by auto
  then have "filter (\<lambda>p. pair_key p = encodeURIComponent k) (key_pairs k' v') = []"
    by (rule filter_key_pairs_other)
  moreover have "filter (\<lambda>p. pair_key p = encodeURIComponent k) (all_pairs kvs) = []"
    using Cons by simp
  ultimately show ?case using kv by (simp add: all_pairs_def)
qed

lemma filter_all_pairs:
  "distinct (map fst kvs) \<Longrightarrow> (k, v) \<in> set kvs \<Longrightarrow>
   filter (\<lambda>p. pair_key p = encodeURIComponent k) (all_pairs kvs) = key_pairs k v"
proof (induction kvs)
  case Nil
  then show ?case by simp
next
  case (Cons kv kvs)
  obtain k' v' where kv: "kv = (k', v')" by (cases kv)
  have ap: "all_pairs (kv # kvs) = key_pairs k' v' @ all_pairs kvs"
    using kv by (simp add: all_pairs_def)
  show ?case
  proof (cases "(k, v) = kv")
    case True
    with Cons.prems kv have "k \<notin> fst ` set kvs" by auto
    then have "filter (\<lambda>p. pair_key p = encodeURIComponent k) (all_pairs kvs) = []"
      by (rule filter_all_pairs_absent)
    with True kv show ?thesis unfolding ap by (simp add: filter_key_pairs_same)
  next
    case False
    with Cons.prems have mem: "(k, v) \<in> set kvs" by simp
    with Cons.prems kv have "k' \<noteq> k" by force
    then have "filter (\<lambda>p. pair_key p = encodeURIComponent k) (key_pairs k' v') = []"
      by (rule filter_key_pairs_other)
    moreover have "filter (\<lambda>p. pair_key p = encodeURIComponent k) (all_pairs kvs) = key_pairs k v"
      using Cons mem by simp
    ultimately show ?thesis unfolding ap by simp
  qed
qed

lemma all_pairs_drop_nullish:
  "all_pairs (filter (\<lambda>kv. \<not> nullish (snd kv)) kvs) = all_pairs kvs"
  by (induction kvs) (auto simp: all_pairs_def key_pairs_def)

text \<open>
  Claim C5. For a param mapping with an array-valued key, the query string holds one
  \<^verbatim>\<open>key=value\<close> pair for each element of the array, in the array's order: the pairs of
  the query string whose key is the (encoded) key are exactly the pairs of the array's
  elements, one after the other.
\<close>

theorem buildQueryString_array_pairs:
  assumes "distinct (map fst kvs)" and "(k, JArr vs) \<in> set kvs"
  shows "filter (\<lambda>p. pair_key p = encodeURIComponent k) (pairs_of (buildQueryString (JObj kvs)))
           = map (\<lambda>v. encodeURIComponent k @ ''='' @ encodeURIComponent (ToString v)) vs"
  using filter_all_pairs[OF assms] pairs_of_buildQueryString[OF assms(1)]
  by (simp add: key_pairs_def key_value_pair_def[abs_def])

theorem buildQueryString_array_pairs_witness:
  "filter (\<lambda>p. pair_key p = encodeURIComponent ''tag'')
     (pairs_of (buildQueryString
        (JObj [(''page'', JNum 2), (''tag'', JArr [JStr ''b'', JStr ''a&c'', JNum 7]), (''q'', JNull)])))
   = [''tag=b'', ''tag=a%26c'', ''tag=7'']
   \<and> buildQueryString
        (JObj [(''page'', JNum 2), (''tag'', JArr [JStr ''b'', JStr ''a&c'', JNum 7]), (''q'', JNull)])
     = ''?page=2&tag=b&tag=a%26c&tag=7''"
proof -
  have d: "distinct (map fst [(''page'', JNum 2), (''tag'', JArr [JStr ''b'', JStr ''a&c'', JNum 7]), (''q'', JNull)])"
    by simp
  have m: "(''tag'', JArr [JStr ''b'', JStr ''a&c'', JNum 7])
             \<in> set [(''page'', JNum 2), (''tag'', JArr [JStr ''b'', JStr ''a&c'', JNum 7]), (''q'', JNull)]"
    by simp
  have e: "encodeURIComponent ''tag'' = ''tag''" "encodeURIComponent ''b'' = ''b''"
    "encodeURIComponent ''a&c'' = ''a%26c''" "encodeURIComponent ''7'' = ''7''"
    by (simp_all add: encodeURIComponent_def encode_char_def unreserved_def hexdigit_def)
  have s: "string_of_int 7 = ''7''" by (simp add: string_of_int_def)
  have q: "buildQueryString
        (JObj [(''page'', JNum 2), (''tag'', JArr [JStr ''b'', JStr ''a&c'', JNum 7]), (''q'', JNull)])
     = ''?page=2&tag=b&tag=a%26c&tag=7''"
    by code_simp
  show ?thesis using buildQueryString_array_pairs[OF d m] q by (simp add: e s)
qed

text \<open>
  Claim C6. A key whose value is \<^verbatim>\<open>null\<close> or \<^verbatim>\<open>undefined\<close> contributes no pair: no pair
  of the query string has that key, and the query string is the one of the mapping
  without such keys. An empty mapping and an absent one (\<^verbatim>\<open>undefined\<close>, \<^verbatim>\<open>null\<close>) give
  the empty string, without a leading \<^verbatim>\<open>?\<close>.
\<close>

theorem buildQueryString_nullish_and_empty:
  "(distinct (map fst kvs) \<and> (k, v) \<in> set kvs \<and> nullish v \<longrightarrow>
      filter (\<lambda>p. pair_key p = encodeURIComponent k) (pairs_of (buildQueryString (JObj kvs))) = []
      \<and> buildQueryString (JObj kvs) = buildQueryString (JObj (filter (\<lambda>kv. \<not> nullish (snd kv)) kvs)))
   \<and> buildQueryString (JObj []) = []
   \<and> buildQueryString JUndefined = []
   \<and> buildQueryString JNull = []"
proof (intro conjI impI)
  assume "distinct (map fst kvs) \<and> (k, v) \<in> set kvs \<and> nullish v"
  then have d: "distinct (map fst kvs)" and m: "(k, v) \<in> set kvs" and n: "nullish v"
    by simp_all
  show "filter (\<lambda>p. pair_key p = encodeURIComponent k) (pairs_of (buildQueryString (JObj kvs))) = []"
    using filter_all_pairs[OF d m] pairs_of_buildQueryString[OF d] n
    by (simp add: key_pairs_def)
  have "distinct (map fst (filter (\<lambda>kv. \<not> nullish (snd kv)) kvs))"
    using d by (rule distinct_map_filter)
  then show "buildQueryString (JObj kvs) = buildQueryString (JObj (filter (\<lambda>kv. \<not> nullish (snd kv)) kvs))"
    by (simp add: buildQueryString_obj d all_pairs_drop_nullish)
qed (simp_all add: buildQueryString_def)

theorem buildQueryString_nullish_and_empty_witness:
  "buildQueryString (JObj [(''a'', JNull), (''b'', JNum 1), (''c'', JUndefined)])
     = buildQueryString (JObj [(''b'', JNum 1)])
   \<and> filter (\<lambda>p. pair_key p = encodeURIComponent ''a'')
        (pairs_of (buildQueryString (JObj [(''a'', JNull), (''b'', JNum 1), (''c'', JUndefined)]))) = []
   \<and> buildQueryString (JObj []) = []"
proof -
  have h: "distinct (map fst [(''a'', JNull), (''b'', JNum 1), (''c'', JUndefined)])
           \<and> (''a'', JNull) \<in> set [(''a'', JNull), (''b'', JNum 1), (''c'', JUndefined)]
           \<and> nullish JNull"
    by simp
  have f: "filter (\<lambda>kv. \<not> nullish (snd kv)) [(''a'', JNull), (''b'', JNum 1), (''c'', JUndefined)]
           = [(''b'', JNum 1)]"
    by simp
  show ?thesis
    using buildQueryString_nullish_and_empty
            [of "[(''a'', JNull), (''b'', JNum 1), (''c'', JUndefined)]" "''a''" JNull, unfolded f] h
    by blast
qed

section \<open>Properties of the response interceptors\<close>

text \<open>
  Claim C1 says that the success handler raises when the envelope's \<^verbatim>\<open>data\<close> field is
  absent. The second variant tests the response body, which is the envelope itself, and
  never its \<^verbatim>\<open>data\<close> field: an envelope without \<^verbatim>\<open>data\<close>, with status code 200 and
  the error flag false, is returned.
\<close>

theorem response_success_counterexample:
  "\<not> has_prop (JObj [(''statusCode'', JNum 200), (''error'', JBool False)]) ''data''
   \<and> response_success_2
        \<lparr>res_status = 200, res_data = JObj [(''statusCode'', JNum 200), (''error'', JBool False)]\<rparr>
     = Inr \<lparr>res_status = 200, res_data = JObj [(''statusCode'', JNum 200), (''error'', JBool False)]\<rparr>"
  by (simp add: response_success_2_def)

text \<open>
  Claim C1, amended. Both variants raise \<^verbatim>\<open>Error in response\<close> when the response body is
  falsy. Otherwise the first variant returns the body when the HTTP status is 200 or
  201. Otherwise the second variant, when the body's \<^verbatim>\<open>statusCode\<close> is 200 or 201 and
  its \<^verbatim>\<open>error\<close> flag is \<^verbatim>\<open>false\<close>, returns the response unchanged, from which the instance
  resolves with the body; in every other case it raises an error whose message is the
  body's \<^verbatim>\<open>message\<close> when that is truthy and \<^verbatim>\<open>Unknown API error\<close> when it is not.
\<close>

theorem response_success_rules:
  "(\<not> truthy (res_data res) \<longrightarrow>
      response_success_1 res = Inl (Error ''Error in response'' None)
      \<and> response_success_2 res = Inl (Error ''Error in response'' None))
   \<and> (truthy (res_data res) \<and> (res_status res = 200 \<or> res_status res = 201) \<longrightarrow>
      response_success_1 res = Inr (res_data res))
   \<and> (truthy (res_data res)
        \<and> (get_prop (res_data res) ''statusCode'' = JNum 200 \<or> get_prop (res_data res) ''statusCode'' = JNum 201)
        \<and> get_prop (res_data res) ''error'' = JBool False \<longrightarrow>
      response_success_2 res = Inr res
      \<and> Instance_request_2 has_window signOut (\<lambda>config. Fulfilled res) config b = (Inr (res_data res), b))
   \<and> (truthy (res_data res)
        \<and> \<not> ((get_prop (res_data res) ''statusCode'' = JNum 200 \<or> get_prop (res_data res) ''statusCode'' = JNum 201)
              \<and> get_prop (res_data res) ''error'' = JBool False) \<longrightarrow>
      response_success_2 res =
        Inl (Error (if truthy (get_prop (res_data res) ''message'')
                    then ToString (get_prop (res_data res) ''message'')
                    else ''Unknown API error'') None))"
  by (auto simp: response_success_1_def response_success_2_def Instance_request_2_def js_or_def Let_def)

theorem response_success_rules_witness:
  "response_success_1 \<lparr>res_status = 204, res_data = JStr ''''\<rparr> = Inl (Error ''Error in response'' None)
   \<and> response_success_1 \<lparr>res_status = 201, res_data = JObj [(''id'', JNum 7)]\<rparr> = Inr (JObj [(''id'', JNum 7)])
   \<and> response_success_2
        \<lparr>res_status = 200,
         res_data = JObj [(''statusCode'', JNum 200), (''error'', JBool False), (''data'', JObj [(''id'', JNum 1)])]\<rparr>
       = Inr \<lparr>res_status = 200,
         res_data = JObj [(''statusCode'', JNum 200), (''error'', JBool False), (''data'', JObj [(''id'', JNum 1)])]\<rparr>
   \<and> response_success_2
        \<lparr>res_status = 200, res_data = JObj [(''statusCode'', JNum 500), (''error'', JBool True)]\<rparr>
       = Inl (Error ''Unknown API error'' None)"
  using response_success_rules[of "\<lparr>res_status = 204, res_data = JStr ''''\<rparr>"]
    response_success_rules[of "\<lparr>res_status = 201, res_data = JObj [(''id'', JNum 7)]\<rparr>"]
    response_success_rules[of "\<lparr>res_status = 200,
         res_data = JObj [(''statusCode'', JNum 200), (''error'', JBool False), (''data'', JObj [(''id'', JNum 1)])]\<rparr>"]
    response_success_rules[of "\<lparr>res_status = 200, res_data = JObj [(''statusCode'', JNum 500), (''error'', JBool True)]\<rparr>"]
  by simp

text \<open>
  For a truthy body with any other HTTP status the first variant neither returns the
  body nor raises: the handler ends without a value.
\<close>

lemma response_success_1_other_status:
  "truthy (res_data res) \<Longrightarrow> res_status res \<noteq> 200 \<Longrightarrow> res_status res \<noteq> 201 \<Longrightarrow>
   response_success_1 res = Inr JUndefined"
  by (simp add: response_success_1_def)

text \<open>
  Claim C4 says that a response with status 401 leads to a redirect to the sign-in entry
  point. The first variant clears the storage and leaves the location as it is.
\<close>

theorem response_error_counterexample:
  "location_href (snd (response_error_1 (AxiosError (Some 401) ''Request failed with status code 401'')
       \<lparr>localStorage = [''token'' \<mapsto> ''abc''], location_href = ''/orders''\<rparr>)) \<noteq> ''/login''"
  by (simp add: response_error_1_def)

text \<open>
  Claim C4, amended. On an error with response status 401 the first variant clears the
  local storage and rejects with the original error, without a redirect. The second
  variant, in a browser and once the sign-out has completed, clears the local storage,
  sets the location to \<^verbatim>\<open>/login\<close> and rejects with the original error.
\<close>

theorem response_error_401:
  assumes "response_status error = Some 401"
  shows "response_error_1 error b = (error, b\<lparr>localStorage := Map.empty\<rparr>)
       \<and> (send config = Rejected error \<longrightarrow>
            Instance_request_1 send config b = (Inl error, b\<lparr>localStorage := Map.empty\<rparr>))
       \<and> (signOut b = Inr b' \<longrightarrow>
            response_error_2 True signOut error b
              = (error, b'\<lparr>localStorage := Map.empty, location_href := ''/login''\<rparr>)
            \<and> (send config = Rejected error \<longrightarrow>
                 Instance_request_2 True signOut send config b
                   = (Inl error, b'\<lparr>localStorage := Map.empty, location_href := ''/login''\<rparr>)))"
  using assms
  by (simp add: response_error_1_def response_error_2_def Instance_request_1_def Instance_request_2_def)

theorem response_error_401_witness:
  "Instance_request_1 (\<lambda>config. Rejected (AxiosError (Some 401) ''Unauthorized''))
       \<lparr>req_method = ''GET'', req_url = ''order/list'', req_data = JUndefined, req_headers = None\<rparr>
       \<lparr>localStorage = [''token'' \<mapsto> ''abc''], location_href = ''/orders''\<rparr>
     = (Inl (AxiosError (Some 401) ''Unauthorized''),
        \<lparr>localStorage = Map.empty, location_href = ''/orders''\<rparr>)
   \<and> Instance_request_2 True Inr (\<lambda>config. Rejected (AxiosError (Some 401) ''Unauthorized''))
       \<lparr>req_method = ''GET'', req_url = ''order/list'', req_data = JUndefined, req_headers = None\<rparr>
       \<lparr>localStorage = [''token'' \<mapsto> ''abc''], location_href = ''/orders''\<rparr>
     = (Inl (AxiosError (Some 401) ''Unauthorized''),
        \<lparr>localStorage = Map.empty, location_href = ''/login''\<rparr>)"
proof -
  have h: "response_status (AxiosError (Some 401) ''Unauthorized'') = Some 401" by simp
  show ?thesis
    using response_error_401[OF h,
        where b = "\<lparr>localStorage = [''token'' \<mapsto> ''abc''], location_href = ''/orders''\<rparr>"
          and signOut = Inr
          and b' = "\<lparr>localStorage = [''token'' \<mapsto> ''abc''], location_href = ''/orders''\<rparr>"
          and send = "\<lambda>config. Rejected (AxiosError (Some 401) ''Unauthorized'')"
          and config = "\<lparr>req_method = ''GET'', req_url = ''order/list'', req_data = JUndefined, req_headers = None\<rparr>"]
    by simp
qed

section \<open>Properties of the hooks over the instance\<close>

text \<open>
  Claim C7 says that the server response \<^verbatim>\<open>{statusCode:404, error:true, message:"not found"}\<close>
  makes the fetch hook reject with the message \<^verbatim>\<open>not found\<close>. When the server sends
  that envelope with the HTTP status 404, the client rejects before the success handler
  sees the envelope, the error handler hands the client's error on, and the hook, which
  catches nothing, rejects with \<^verbatim>\<open>Request failed with status code 404\<close>.
\<close>

theorem useFetchData_envelope_counterexample:
  "useFetchData_queryFn
     (\<lambda>u. fst (Instance_get_2 True Inr
        (\<lambda>config. axios_settle \<lparr>res_status = 404,
           res_data = JObj [(''statusCode'', JNum 404), (''error'', JBool True),
                            (''message'', JStr ''not found'')]\<rparr>) u
        \<lparr>localStorage = Map.empty, location_href = ''/orders''\<rparr>))
     ''order/list'' (JObj [])
   = Inl (AxiosError (Some 404) ''Request failed with status code 404'')"
proof -
  have s: "string_of_int 404 = ''404''" by code_simp
  show ?thesis
    by (simp add: useFetchData_queryFn_def Instance_get_2_def Instance_request_2_def
        response_error_2_def axios_settle_def s)
qed

text \<open>
  Claim C7, amended. When the server sends the envelope with an HTTP status from 200 to
  299, so that the client hands it to the success handler: the envelope
  \<^verbatim>\<open>{statusCode:200, error:false, data:{id:1}}\<close> makes the fetch hook resolve with
  \<^verbatim>\<open>{id:1}\<close>, and the envelope \<^verbatim>\<open>{statusCode:404, error:true, message:"not found"}\<close> makes
  it reject with an error whose message is \<^verbatim>\<open>not found\<close>.
\<close>

theorem useFetchData_envelopes_2xx:
  assumes "200 \<le> http_status" and "http_status < 300"
  shows "useFetchData_queryFn
     (\<lambda>u. fst (Instance_get_2 has_window signOut
        (\<lambda>config. axios_settle \<lparr>res_status = http_status,
           res_data = JObj [(''statusCode'', JNum 200), (''error'', JBool False),
                            (''data'', JObj [(''id'', JNum 1)])]\<rparr>) u b))
     url params
   = Inr (JObj [(''id'', JNum 1)])
   \<and> useFetchData_queryFn
     (\<lambda>u. fst (Instance_get_2 has_window signOut
        (\<lambda>config. axios_settle \<lparr>res_status = http_status,
           res_data = JObj [(''statusCode'', JNum 404), (''error'', JBool True),
                            (''message'', JStr ''not found'')]\<rparr>) u b))
     url params
   = Inl (Error ''not found'' None)"
  using assms
  by (simp add: useFetchData_queryFn_def Instance_get_2_def Instance_request_2_def
      response_success_2_def js_or_def axios_settle_def)

theorem useFetchData_envelopes_2xx_witness:
  "useFetchData_queryFn
     (\<lambda>u. fst (Instance_get_2 True Inr
        (\<lambda>config. axios_settle \<lparr>res_status = 200,
           res_data = JObj [(''statusCode'', JNum 200), (''error'', JBool False),
                            (''data'', JObj [(''id'', JNum 1)])]\<rparr>) u
        \<lparr>localStorage = Map.empty, location_href = ''/orders''\<rparr>))
     ''order/list'' (JObj [(''page'', JNum 1)])
   = Inr (JObj [(''id'', JNum 1)])
   \<and> useFetchData_queryFn
     (\<lambda>u. fst (Instance_get_2 True Inr
        (\<lambda>config. axios_settle \<lparr>res_status = 200,
           res_data = JObj [(''statusCode'', JNum 404), (''error'', JBool True),
                            (''message'', JStr ''not found'')]\<rparr>) u
        \<lparr>localStorage = Map.empty, location_href = ''/orders''\<rparr>))
     ''order/list'' (JObj [(''page'', JNum 1)])
   = Inl (Error ''not found'' None)"
proof -
  have h1: "(200::int) \<le> 200" by simp
  have h2: "(200::int) < 300" by simp
  show ?thesis by (rule useFetchData_envelopes_2xx[OF h1 h2])
qed

text \<open>
  With any other HTTP status except 401 the hook rejects with the client's error,
  whatever the envelope says.
\<close>

lemma useFetchData_transport_rejection:
  assumes "\<not> (200 \<le> http_status \<and> http_status < 300)" and "http_status \<noteq> 401"
  shows "useFetchData_queryFn
     (\<lambda>u. fst (Instance_get_2 has_window signOut
        (\<lambda>config. axios_settle \<lparr>res_status = http_status, res_data = envelope\<rparr>) u b))
     url params
   = Inl (AxiosError (Some http_status)
            (''Request failed with status code '' @ string_of_int http_status))"
  using assms
  by (auto simp: useFetchData_queryFn_def Instance_get_2_def Instance_request_2_def
      response_error_2_def axios_settle_def)

text \<open>
  Claim C3 says that variables with both an \<^verbatim>\<open>id\<close> and a \<^verbatim>\<open>payload\<close> field always give
  the URL \<^verbatim>\<open>url + "/" + id\<close>. With the empty string as \<^verbatim>\<open>id\<close> the URL stays the
  configured one.
\<close>

theorem put_request_counterexample:
  "has_prop (JObj [(''id'', JStr []), (''payload'', JObj [(''x'', JNum 1)])]) ''id''
   \<and> has_prop (JObj [(''id'', JStr []), (''payload'', JObj [(''x'', JNum 1)])]) ''payload''
   \<and> fst (put_request ''/users'' (JObj [(''id'', JStr []), (''payload'', JObj [(''x'', JNum 1)])]))
       \<noteq> ''/users'' @ ''/'' @ ToString (get_prop (JObj [(''id'', JStr []), (''payload'', JObj [(''x'', JNum 1)])]) ''id'')"
  by (simp add: put_request_def)

lemma has_prop_map_of: "has_prop (JObj kvs) k \<longleftrightarrow> map_of kvs k \<noteq> None"
  by (simp add: map_of_eq_None_iff)

text \<open>
  Claim C3, amended. When the variables are an object with both an \<^verbatim>\<open>id\<close> and a
  \<^verbatim>\<open>payload\<close> field, the request body is exactly the payload, and the request URL is the
  configured url, \<^verbatim>\<open>/\<close> and the id when the id is truthy, and the configured url
  unchanged when the id is falsy. Otherwise the URL is the configured url unchanged and
  the body is the variables value itself. The URL and the body are read off an instance
  that echoes the URL and the body it was called with.
\<close>

theorem put_request_shapes:
  "(variables = JObj kvs \<and> map_of kvs ''id'' = Some idv \<and> map_of kvs ''payload'' = Some payload \<longrightarrow>
      put_request url variables
        = (if truthy idv then url @ ''/'' @ ToString idv else url, payload)
      \<and> usePutData_mutationFn
          (\<lambda>u d h. Inr (JObj [(''statusCode'', JNum 200), (''data'', JObj [(''url'', JStr u), (''body'', d)])]))
          url headers variables
        = Inr (JObj [(''url'', JStr (if truthy idv then url @ ''/'' @ ToString idv else url)),
                     (''body'', payload)]))
   \<and> (\<not> (has_prop variables ''id'' \<and> has_prop variables ''payload'') \<longrightarrow>
      put_request url variables = (url, variables)
      \<and> usePutData_mutationFn
          (\<lambda>u d h. Inr (JObj [(''statusCode'', JNum 200), (''data'', JObj [(''url'', JStr u), (''body'', d)])]))
          url headers variables
        = Inr (JObj [(''url'', JStr url), (''body'', variables)]))"
proof -
  have "put_request url (JObj kvs) = (if truthy idv then url @ ''/'' @ ToString idv else url, payload)"
    if "map_of kvs ''id'' = Some idv" "map_of kvs ''payload'' = Some payload"
  proof -
    from that have "has_prop (JObj kvs) ''id''" "has_prop (JObj kvs) ''payload''"
      by (simp_all only: has_prop_map_of) simp_all
    with that show ?thesis by (simp add: put_request_def del: has_prop.simps)
  qed
  moreover have "put_request url variables = (url, variables)"
    if "\<not> (has_prop variables ''id'' \<and> has_prop variables ''payload'')"
    using that by (auto simp: put_request_def)
  ultimately show ?thesis
    by (auto simp: usePutData_mutationFn_def)
qed

theorem put_request_shapes_witness:
  "put_request ''/users'' (JObj [(''id'', JStr ''42''), (''payload'', JObj [(''x'', JNum 1)])])
     = (''/users/42'', JObj [(''x'', JNum 1)])
   \<and> put_request ''/users'' (JObj [(''id'', JUndefined), (''payload'', JObj [(''x'', JNum 1)])])
     = (''/users'', JObj [(''x'', JNum 1)])
   \<and> put_request ''/users/42'' (JObj [(''x'', JNum 1)]) = (''/users/42'', JObj [(''x'', JNum 1)])"
  using put_request_shapes[of "JObj [(''id'', JStr ''42''), (''payload'', JObj [(''x'', JNum 1)])]"
      "[(''id'', JStr ''42''), (''payload'', JObj [(''x'', JNum 1)])]" "JStr ''42''" "JObj [(''x'', JNum 1)]" "''/users''"]
    put_request_shapes[of "JObj [(''id'', JUndefined), (''payload'', JObj [(''x'', JNum 1)])]"
      "[(''id'', JUndefined), (''payload'', JObj [(''x'', JNum 1)])]" "JUndefined" "JObj [(''x'', JNum 1)]" "''/users''"]
    put_request_shapes[of "JObj [(''x'', JNum 1)]" _ _ _ "''/users/42''"]
  by simp

text \<open>
  Claim C9 says that the error of a failing PUT-style mutation carries the envelope's
  message unchanged. For the status code 401 the message is \<^verbatim>\<open>Unauthorized\<close> whatever
  the envelope says.
\<close>

theorem usePutData_error_counterexample:
  "usePutData_mutationFn
     (\<lambda>u d h. fst (Instance_put_1
        (\<lambda>config. Fulfilled \<lparr>res_status = 200,
           res_data = JObj [(''statusCode'', JNum 401), (''error'', JBool True),
                            (''message'', JStr ''Token expired'')]\<rparr>)
        \<lparr>req_method = ''PUT'', req_url = u, req_data = d, req_headers = h\<rparr>
        \<lparr>localStorage = Map.empty, location_href = ''/orders''\<rparr>))
     ''/users'' None (JObj [(''name'', JStr ''a'')])
   = Inl (Error ''Unauthorized'' (Some 401))"
  by (simp add: usePutData_mutationFn_def put_request_def Instance_put_1_def Instance_request_1_def
      response_success_1_def)

text \<open>
  Claim C9, amended. When the instance resolves with an envelope whose \<^verbatim>\<open>statusCode\<close> is
  neither 200 nor 201, the mutation rejects: for 401 with the message \<^verbatim>\<open>Unauthorized\<close>
  and the \<^verbatim>\<open>statusCode\<close> field 401; otherwise with the envelope's message (a default
  phrase when the envelope has none), and with the \<^verbatim>\<open>statusCode\<close> field 400 exactly when
  the envelope's \<^verbatim>\<open>statusCode\<close> is 400.
\<close>

theorem usePutData_error_branches:
  assumes "instance_put (fst (put_request url variables)) (snd (put_request url variables)) headers = Inr response"
    and "get_prop response ''statusCode'' \<noteq> JNum 200"
    and "get_prop response ''statusCode'' \<noteq> JNum 201"
  shows "usePutData_mutationFn instance_put url headers variables =
           Inl (if get_prop response ''statusCode'' = JNum 401 then Error ''Unauthorized'' (Some 401)
                else Error (if nullish (get_prop response ''message'')
                            then ''An error occurred while updating data''
                            else ToString (get_prop response ''message''))
                           (if get_prop response ''statusCode'' = JNum 400 then Some 400 else None))"
  using assms by (simp add: usePutData_mutationFn_def js_coalesce_def split_def Let_def)

theorem usePutData_error_branches_witness:
  "usePutData_mutationFn
     (\<lambda>u d h. fst (Instance_put_1
        (\<lambda>config. Fulfilled \<lparr>res_status = 200,
           res_data = JObj [(''statusCode'', JNum 400), (''error'', JBool True),
                            (''message'', JStr ''Name is required'')]\<rparr>)
        \<lparr>req_method = ''PUT'', req_url = u, req_data = d, req_headers = h\<rparr>
        \<lparr>localStorage = Map.empty, location_href = ''/orders''\<rparr>))
     ''/users'' None (JObj [(''name'', JStr [])])
   = Inl (Error ''Name is required'' (Some 400))"
proof -
  let ?r = "JObj [(''statusCode'', JNum 400), (''error'', JBool True), (''message'', JStr ''Name is required'')]"
  let ?put = "\<lambda>u d h. fst (Instance_put_1
        (\<lambda>config. Fulfilled \<lparr>res_status = 200, res_data = ?r\<rparr>)
        \<lparr>req_method = ''PUT'', req_url = u, req_data = d, req_headers = h\<rparr>
        \<lparr>localStorage = Map.empty, location_href = ''/orders''\<rparr>)"
  have h1: "?put (fst (put_request ''/users'' (JObj [(''name'', JStr [])])))
              (snd (put_request ''/users'' (JObj [(''name'', JStr [])]))) None = Inr ?r"
    by (simp add: Instance_put_1_def Instance_request_1_def response_success_1_def)
  have h2: "get_prop ?r ''statusCode'' \<noteq> JNum 200" by simp
  have h3: "get_prop ?r ''statusCode'' \<noteq> JNum 201" by simp
  show ?thesis
    using usePutData_error_branches[where instance_put = ?put and url = "''/users''"
        and variables = "JObj [(''name'', JStr [])]" and headers = None and response = ?r,
        OF h1 h2 h3]
    by simp
qed

text \<open>
  Over the second variant of the instance the error branches of the hook are not
  reached: an envelope that fails the interceptor's test is rejected there, with the
  envelope's message and no \<^verbatim>\<open>statusCode\<close> field, and the hook hands that error on.
\<close>

lemma usePutData_over_second_instance:
  assumes "truthy (res_data res)"
    and "\<not> ((get_prop (res_data res) ''statusCode'' = JNum 200 \<or> get_prop (res_data res) ''statusCode'' = JNum 201)
            \<and> get_prop (res_data res) ''error'' = JBool False)"
  shows "usePutData_mutationFn
           (\<lambda>u d h. fst (Instance_put_2 has_window signOut (\<lambda>config. Fulfilled res) u d h b))
           url headers variables
         = Inl (Error (ToString (js_or (get_prop (res_data res) ''message'') (JStr ''Unknown API error''))) None)"
  using assms
  by (simp add: usePutData_mutationFn_def Instance_put_2_def Instance_request_2_def
      response_success_2_def split_def Let_def)

section \<open>Properties of the optimistic hooks\<close>

lemma setQueryData_requests: "requests (setQueryData st k v) = requests st"
  by (simp add: setQueryData_def)

lemma axiosDemo_request_queries:
  "axiosDemo_request axiosDemo req st = (r, st1) \<Longrightarrow> queries st1 = queries st"
  by (auto simp: axiosDemo_request_def Let_def split: settled.splits)

lemma usePut_mutationFn_queries:
  "usePut_mutationFn axiosDemo url options body st = (r, st1) \<Longrightarrow> queries st1 = queries st"
  by (auto simp: usePut_mutationFn_def Let_def split: prod.splits sum.splits if_splits
      dest: axiosDemo_request_queries)

lemma useDelete_mutationFn_queries:
  "useDelete_mutationFn confirm axiosDemo url options idv st = (r, st1) \<Longrightarrow> queries st1 = queries st"
  by (auto simp: useDelete_mutationFn_def split: prod.splits sum.splits if_splits
      dest: axiosDemo_request_queries)

text \<open>
  Claim C8. When the delete hook has a confirmation message, so that the prompt is
  shown, and the user declines, \<^verbatim>\<open>mutationFn\<close> rejects with the message
  \<^verbatim>\<open>Deletion cancelled\<close> and leaves the state as it is: no request is issued. With the
  hook's own handlers the whole mutation rejects with that error and the list of
  requests issued is the one from before the mutation.
\<close>

theorem useDelete_declined:
  assumes "confirmMessage options = Some msg" and "msg \<noteq> []" and "\<not> confirm msg"
  shows "useDelete_mutationFn confirm axiosDemo url options idv st
           = (Inl (Error ''Deletion cancelled'' None), st)
       \<and> (onMutate options = None \<and> onError options = None
            \<and> useDelete_onMutate options idv st = Inr (ctx, st') \<longrightarrow>
          fst (useDelete_mutate confirm axiosDemo url options idv st) = Inl (Error ''Deletion cancelled'' None)
          \<and> requests (snd (useDelete_mutate confirm axiosDemo url options idv st)) = requests st)"
proof -
  have m: "useDelete_mutationFn confirm axiosDemo url options idv s
           = (Inl (Error ''Deletion cancelled'' None), s)" for s
    using assms by (simp add: useDelete_mutationFn_def)
  have r: "requests st' = requests st"
    if "useDelete_onMutate options idv st = Inr (ctx, st')" "onMutate options = None"
    using that
    by (auto simp: useDelete_onMutate_def Let_def setQueryData_requests
        split: option.splits list.splits sum.splits)
  have e: "requests (useDelete_onError options e idv c s) = requests s" if "onError options = None" for e c s
    using that by (simp add: useDelete_onError_def setQueryData_requests)
  show ?thesis
    using m r e by (auto simp: useDelete_mutate_def run_mutation_def)
qed

theorem useDelete_declined_witness:
  "useDelete_mutationFn (\<lambda>msg. False) (\<lambda>req. Fulfilled \<lparr>res_status = 200, res_data = JObj []\<rparr>) ''/posts''
     \<lparr>invalidateQueries = Some [''/posts''], onMutate = None, onSuccess = None, onError = None,
      confirmMessage = Some ''Are you sure you want to delete this post?''\<rparr>
     (JStr ''7'')
     \<lparr>queries = (\<lambda>k. JUndefined), invalidated = [], requests = []\<rparr>
   = (Inl (Error ''Deletion cancelled'' None),
      \<lparr>queries = (\<lambda>k. JUndefined), invalidated = [], requests = []\<rparr>)
   \<and> fst (useDelete_mutate (\<lambda>msg. False) (\<lambda>req. Fulfilled \<lparr>res_status = 200, res_data = JObj []\<rparr>) ''/posts''
     \<lparr>invalidateQueries = Some [''/posts''], onMutate = None, onSuccess = None, onError = None,
      confirmMessage = Some ''Are you sure you want to delete this post?''\<rparr>
     (JStr ''7'')
     \<lparr>queries = (\<lambda>k. JUndefined), invalidated = [], requests = []\<rparr>)
     = Inl (Error ''Deletion cancelled'' None)
   \<and> requests (snd (useDelete_mutate (\<lambda>msg. False) (\<lambda>req. Fulfilled \<lparr>res_status = 200, res_data = JObj []\<rparr>) ''/posts''
     \<lparr>invalidateQueries = Some [''/posts''], onMutate = None, onSuccess = None, onError = None,
      confirmMessage = Some ''Are you sure you want to delete this post?''\<rparr>
     (JStr ''7'')
     \<lparr>queries = (\<lambda>k. JUndefined), invalidated = [], requests = []\<rparr>))
     = []"
proof -
  let ?o = "\<lparr>invalidateQueries = Some [''/posts''], onMutate = None, onSuccess = None, onError = None,
      confirmMessage = Some ''Are you sure you want to delete this post?''\<rparr>"
  let ?st = "\<lparr>queries = (\<lambda>k. JUndefined), invalidated = [], requests = []\<rparr>"
  have h1: "confirmMessage ?o = Some ''Are you sure you want to delete this post?''" by simp
  have h2: "''Are you sure you want to delete this post?'' \<noteq> []" by simp
  have h3: "\<not> (\<lambda>msg. False) ''Are you sure you want to delete this post?''" by simp
  have h4: "useDelete_onMutate ?o (JStr ''7'') ?st
              = Inr (JObj [(''previousData'', JUndefined), (''queryKey'', JStr ''/posts'')], ?st)"
    by (simp add: useDelete_onMutate_def getQueryData_def setQueryData_def remove_item_def)
  show ?thesis
    using useDelete_declined[OF h1 h2 h3, where idv = "JStr ''7''" and st = ?st
        and ctx = "JObj [(''previousData'', JUndefined), (''queryKey'', JStr ''/posts'')]"
        and st' = ?st] h4
    by simp
qed

text \<open>
  Claim C2 says that after a failed optimistic mutation the cache holds the value
  snapshotted before the optimistic write. With no data under the key before the
  mutation the snapshot is \<^verbatim>\<open>undefined\<close>, and after the failure the cache still holds the
  optimistically written variables.
\<close>

theorem rollback_counterexample:
  "getQueryData \<lparr>queries = (\<lambda>k. JUndefined), invalidated = [], requests = []\<rparr> (JStr ''posts'') = JUndefined
   \<and> getQueryData
        (snd (usePut_mutate (\<lambda>req. Rejected (AxiosError (Some 500) ''Request failed with status code 500''))
                ''/posts/1''
                \<lparr>invalidateQueries = Some [''posts''], onMutate = None, onSuccess = None, onError = None,
                 http_method = None\<rparr>
                (JObj [(''title'', JStr ''new'')])
                \<lparr>queries = (\<lambda>k. JUndefined), invalidated = [], requests = []\<rparr>))
        (JStr ''posts'')
     = JObj [(''title'', JStr ''new'')]"
  by (simp add: usePut_mutate_def run_mutation_def usePut_onMutate_def usePut_mutationFn_def
      usePut_onError_def axiosDemo_request_def getQueryData_def setQueryData_def)

lemma truthy_defined: "truthy v \<Longrightarrow> v \<noteq> JUndefined"
  by auto

lemma usePut_rollback_state:
  assumes "truthy p" and "k \<noteq> []" and "onError options = None"
  shows "getQueryData
           (usePut_onError options e variables (JObj [(''previousData'', p), (''queryKey'', JStr k)]) st)
           (JStr k) = p"
  using assms truthy_defined[OF assms(1)]
  by (simp add: usePut_onError_def getQueryData_def setQueryData_def)

lemma useDelete_rollback_state:
  assumes "truthy p" and "k \<noteq> []" and "onError options = None"
  shows "getQueryData
           (useDelete_onError options e variables (JObj [(''previousData'', p), (''queryKey'', JStr k)]) st)
           (JStr k) = p"
  using assms truthy_defined[OF assms(1)]
  by (simp add: useDelete_onError_def getQueryData_def setQueryData_def)

lemma usePut_mutate_run:
  assumes "invalidateQueries options = Some (k # ks)" and "onMutate options = None"
    and "onError options = None"
  shows "usePut_mutate axiosDemo url options variables st
      = (case usePut_mutationFn axiosDemo url options variables (setQueryData st (JStr k) variables) of
           (Inl e, st2) \<Rightarrow> (Inl e, usePut_onError options e variables
               (JObj [(''previousData'', getQueryData st (JStr k)), (''queryKey'', JStr k)]) st2)
         | (Inr d, st2) \<Rightarrow> (Inr d, (case onSuccess options of Some f \<Rightarrow> f | None \<Rightarrow> usePut_onSuccess options)
               d variables (JObj [(''previousData'', getQueryData st (JStr k)), (''queryKey'', JStr k)]) st2))"
  by (simp add: usePut_mutate_def run_mutation_def usePut_onMutate_def Let_def assms)

lemma useDelete_mutate_run:
  assumes "invalidateQueries options = Some (k # ks)" and "onMutate options = None"
    and "onError options = None"
  shows "useDelete_mutate confirm axiosDemo url options idv st
      = (case remove_item idv (getQueryData st (JStr k)) of
           Inl e \<Rightarrow> (Inl e, useDelete_onError options e idv JUndefined st)
         | Inr new \<Rightarrow>
          (case useDelete_mutationFn confirm axiosDemo url options idv (setQueryData st (JStr k) new) of
           (Inl e, st2) \<Rightarrow> (Inl e, useDelete_onError options e idv
               (JObj [(''previousData'', getQueryData st (JStr k)), (''queryKey'', JStr k)]) st2)
         | (Inr d, st2) \<Rightarrow> (Inr d, (case onSuccess options of Some f \<Rightarrow> f | None \<Rightarrow> useDelete_onSuccess options)
               d idv (JObj [(''previousData'', getQueryData st (JStr k)), (''queryKey'', JStr k)]) st2)))"
  by (simp add: useDelete_mutate_def run_mutation_def useDelete_onMutate_def Let_def assms
      split: sum.splits)

text \<open>
  Claim C2, amended. For an update or delete mutation that runs with the hook's own
  \<^verbatim>\<open>onMutate\<close> and \<^verbatim>\<open>onError\<close> and fails: when the first configured key is a non-empty
  string and the value snapshotted under it is truthy, the cache value under that key
  after the failure handler equals the snapshot.
\<close>

theorem rollback_restores_snapshot:
  assumes "k \<noteq> []" and "truthy (getQueryData st (JStr k))"
  shows "(invalidateQueries options = Some (k # ks) \<and> onMutate options = None \<and> onError options = None
          \<and> fst (usePut_mutate axiosDemo url options variables st) = Inl e \<longrightarrow>
            getQueryData (snd (usePut_mutate axiosDemo url options variables st)) (JStr k)
              = getQueryData st (JStr k))
       \<and> (invalidateQueries doptions = Some (k # ks) \<and> onMutate doptions = None \<and> onError doptions = None
          \<and> fst (useDelete_mutate confirm axiosDemo url doptions idv st) = Inl e \<longrightarrow>
            getQueryData (snd (useDelete_mutate confirm axiosDemo url doptions idv st)) (JStr k)
              = getQueryData st (JStr k))"
proof (intro conjI impI)
  assume "invalidateQueries options = Some (k # ks) \<and> onMutate options = None \<and> onError options = None
          \<and> fst (usePut_mutate axiosDemo url options variables st) = Inl e"
  then have i: "invalidateQueries options = Some (k # ks)" and om: "onMutate options = None"
    and oe: "onError options = None"
    and f: "fst (usePut_mutate axiosDemo url options variables st) = Inl e"
    by simp_all
  note run = usePut_mutate_run[OF i om oe]
  obtain r st2 where m: "usePut_mutationFn axiosDemo url options variables
     (setQueryData st (JStr k) variables) = (r, st2)"
    by (cases "usePut_mutationFn axiosDemo url options variables (setQueryData st (JStr k) variables)") simp
  show "getQueryData (snd (usePut_mutate axiosDemo url options variables st)) (JStr k)
              = getQueryData st (JStr k)"
  proof (cases r)
    case (Inl e')
    with m show ?thesis
      using usePut_rollback_state[OF assms(2) assms(1) oe] by (simp add: run)
  next
    case (Inr d)
    with m f show ?thesis by (simp add: run)
  qed
next
  assume "invalidateQueries doptions = Some (k # ks) \<and> onMutate doptions = None \<and> onError doptions = None
          \<and> fst (useDelete_mutate confirm axiosDemo url doptions idv st) = Inl e"
  then have i: "invalidateQueries doptions = Some (k # ks)" and om: "onMutate doptions = None"
    and oe: "onError doptions = None"
    and f: "fst (useDelete_mutate confirm axiosDemo url doptions idv st) = Inl e"
    by simp_all
  note run = useDelete_mutate_run[OF i om oe]
  show "getQueryData (snd (useDelete_mutate confirm axiosDemo url doptions idv st)) (JStr k)
              = getQueryData st (JStr k)"
  proof (cases "remove_item idv (getQueryData st (JStr k))")
    case (Inl e')
    then show ?thesis by (simp add: run useDelete_onError_def oe)
  next
    case (Inr new)
    obtain r st2 where m: "useDelete_mutationFn confirm axiosDemo url doptions idv
        (setQueryData st (JStr k) new) = (r, st2)"
      by (cases "useDelete_mutationFn confirm axiosDemo url doptions idv (setQueryData st (JStr k) new)") simp
    show ?thesis
    proof (cases r)
      case (Inl e')
      with m Inr show ?thesis
        using useDelete_rollback_state[OF assms(2) assms(1) oe] by (simp add: run)
    next
      case Inr2: (Inr d)
      with m Inr f show ?thesis by (simp add: run)
    qed
  qed
qed

theorem rollback_restores_snapshot_witness:
  "getQueryData
     (snd (usePut_mutate (\<lambda>req. Rejected (AxiosError (Some 500) ''Request failed with status code 500''))
             ''/posts/1''
             \<lparr>invalidateQueries = Some [''posts''], onMutate = None, onSuccess = None, onError = None,
              http_method = Some ''PATCH''\<rparr>
             (JObj [(''title'', JStr ''new'')])
             \<lparr>queries = (\<lambda>k. JUndefined)(JStr ''posts'' := JArr [JObj [(''id'', JNum 1)], JObj [(''id'', JNum 2)]]),
              invalidated = [], requests = []\<rparr>))
     (JStr ''posts'')
   = JArr [JObj [(''id'', JNum 1)], JObj [(''id'', JNum 2)]]
   \<and> getQueryData
     (snd (useDelete_mutate (\<lambda>msg. True)
             (\<lambda>req. Rejected (AxiosError (Some 500) ''Request failed with status code 500''))
             ''/posts''
             \<lparr>invalidateQueries = Some [''posts''], onMutate = None, onSuccess = None, onError = None,
              confirmMessage = None\<rparr>
             (JStr ''1'')
             \<lparr>queries = (\<lambda>k. JUndefined)(JStr ''posts'' := JArr [JObj [(''id'', JNum 1)], JObj [(''id'', JNum 2)]]),
              invalidated = [], requests = []\<rparr>))
     (JStr ''posts'')
   = JArr [JObj [(''id'', JNum 1)], JObj [(''id'', JNum 2)]]"
proof -
  let ?st = "\<lparr>queries = (\<lambda>k. JUndefined)(JStr ''posts'' := JArr [JObj [(''id'', JNum 1)], JObj [(''id'', JNum 2)]]),
              invalidated = [], requests = []\<rparr>"
  let ?e = "AxiosError (Some 500) ''Request failed with status code 500''"
  let ?po = "\<lparr>invalidateQueries = Some [''posts''], onMutate = None, onSuccess = None, onError = None,
              http_method = Some ''PATCH''\<rparr>"
  let ?do = "\<lparr>invalidateQueries = Some [''posts''], onMutate = None, onSuccess = None, onError = None,
              confirmMessage = None\<rparr>"
  have h1: "''posts'' \<noteq> []" by simp
  have h2: "truthy (getQueryData ?st (JStr ''posts''))" by (simp add: getQueryData_def)
  have p: "fst (usePut_mutate (\<lambda>req. Rejected ?e) ''/posts/1'' ?po (JObj [(''title'', JStr ''new'')]) ?st) = Inl ?e"
    by (simp add: usePut_mutate_def run_mutation_def usePut_onMutate_def usePut_mutationFn_def
        axiosDemo_request_def)
  have d: "fst (useDelete_mutate (\<lambda>msg. True) (\<lambda>req. Rejected ?e) ''/posts'' ?do (JStr ''1'') ?st) = Inl ?e"
    by (simp add: useDelete_mutate_def run_mutation_def useDelete_onMutate_def useDelete_mutationFn_def
        axiosDemo_request_def remove_item_def getQueryData_def)
  show ?thesis
    using rollback_restores_snapshot[OF h1 h2, where options = ?po and doptions = ?do and ks = "[]"
        and e = ?e and axiosDemo = "\<lambda>req. Rejected ?e" and confirm = "\<lambda>msg. True"
        and url = "''/posts/1''" and variables = "JObj [(''title'', JStr ''new'')]"] p
      rollback_restores_snapshot[OF h1 h2, where options = ?po and doptions = ?do and ks = "[]"
        and e = ?e and axiosDemo = "\<lambda>req. Rejected ?e" and confirm = "\<lambda>msg. True"
        and url = "''/posts''" and idv = "JStr ''1''"] d
    by (simp add: getQueryData_def)
qed

text \<open>
  A caller's own \<^verbatim>\<open>onError\<close> replaces the hook's handler, and with it the rollback: the
  state after a failed update is the one the caller's callback leaves.
\<close>

lemma usePut_caller_onError:
  assumes "invalidateQueries options = Some (k # ks)" and "onMutate options = None"
    and "onError options = Some f"
    and "usePut_mutationFn axiosDemo url options variables (setQueryData st (JStr k) variables) = (Inl e, st2)"
  shows "usePut_mutate axiosDemo url options variables st
           = (Inl e, f e variables
                (JObj [(''previousData'', getQueryData st (JStr k)), (''queryKey'', JStr k)]) st2)"
  using assms by (simp add: usePut_mutate_def run_mutation_def usePut_onMutate_def Let_def)

lemma setQueryData_same: "queries (setQueryData st k (getQueryData st k)) = queries st"
  by (simp add: setQueryData_def getQueryData_def)

lemma remove_item_falsy: "\<not> truthy old \<Longrightarrow> remove_item idv old = Inr old"
  by (cases old) (simp_all add: remove_item_def)

text \<open>
  Claim C10. The rollback runs only when the snapshotted value is truthy. When the
  value under the first configured key is falsy before the mutation (no data,
  \<^verbatim>\<open>undefined\<close> or \<^verbatim>\<open>null\<close> among them) and the mutation fails, the cache after the
  failure is the cache as the optimistic write left it: for the update hook the
  variables stay under the key, for the delete hook the cache is as before. The hook's
  \<^verbatim>\<open>onError\<close> changes nothing when the context's snapshot is falsy.
\<close>

theorem no_rollback_without_snapshot:
  assumes "\<not> truthy (getQueryData st (JStr k))"
  shows "(invalidateQueries options = Some (k # ks) \<and> onMutate options = None \<and> onError options = None
          \<and> fst (usePut_mutate axiosDemo url options variables st) = Inl e \<longrightarrow>
            queries (snd (usePut_mutate axiosDemo url options variables st))
              = queries (setQueryData st (JStr k) variables))
       \<and> (invalidateQueries doptions = Some (k # ks) \<and> onMutate doptions = None \<and> onError doptions = None
          \<and> fst (useDelete_mutate confirm axiosDemo url doptions idv st) = Inl e \<longrightarrow>
            queries (snd (useDelete_mutate confirm axiosDemo url doptions idv st)) = queries st)
       \<and> (onError options = None \<and> \<not> truthy (get_prop ctx ''previousData'') \<longrightarrow>
            usePut_onError options e variables ctx s = s)
       \<and> (onError doptions = None \<and> \<not> truthy (get_prop ctx ''previousData'') \<longrightarrow>
            useDelete_onError doptions e idv ctx s = s)"
proof (intro conjI impI)
  assume "invalidateQueries options = Some (k # ks) \<and> onMutate options = None \<and> onError options = None
          \<and> fst (usePut_mutate axiosDemo url options variables st) = Inl e"
  then have i: "invalidateQueries options = Some (k # ks)" and om: "onMutate options = None"
    and oe: "onError options = None"
    and f: "fst (usePut_mutate axiosDemo url options variables st) = Inl e"
    by simp_all
  note run = usePut_mutate_run[OF i om oe]
  obtain r st2 where m: "usePut_mutationFn axiosDemo url options variables
     (setQueryData st (JStr k) variables) = (r, st2)"
    by (cases "usePut_mutationFn axiosDemo url options variables (setQueryData st (JStr k) variables)") simp
  have q: "queries st2 = queries (setQueryData st (JStr k) variables)"
    using m by (rule usePut_mutationFn_queries)
  show "queries (snd (usePut_mutate axiosDemo url options variables st))
              = queries (setQueryData st (JStr k) variables)"
  proof (cases r)
    case (Inl e')
    with m q assms show ?thesis by (simp add: run usePut_onError_def oe)
  next
    case (Inr d)
    with m f show ?thesis by (simp add: run)
  qed
next
  assume "invalidateQueries doptions = Some (k # ks) \<and> onMutate doptions = None \<and> onError doptions = None
          \<and> fst (useDelete_mutate confirm axiosDemo url doptions idv st) = Inl e"
  then have i: "invalidateQueries doptions = Some (k # ks)" and om: "onMutate doptions = None"
    and oe: "onError doptions = None"
    and f: "fst (useDelete_mutate confirm axiosDemo url doptions idv st) = Inl e"
    by simp_all
  note run = useDelete_mutate_run[OF i om oe]
  have rm: "remove_item idv (getQueryData st (JStr k)) = Inr (getQueryData st (JStr k))"
    using assms by (rule remove_item_falsy)
  obtain r st2 where m: "useDelete_mutationFn confirm axiosDemo url doptions idv
        (setQueryData st (JStr k) (getQueryData st (JStr k))) = (r, st2)"
    by (cases "useDelete_mutationFn confirm axiosDemo url doptions idv
        (setQueryData st (JStr k) (getQueryData st (JStr k)))") simp
  have q: "queries st2 = queries st"
    using useDelete_mutationFn_queries[OF m] setQueryData_same by simp
  show "queries (snd (useDelete_mutate confirm axiosDemo url doptions idv st)) = queries st"
  proof (cases r)
    case (Inl e')
    with m q assms rm show ?thesis by (simp add: run useDelete_onError_def oe)
  next
    case (Inr d)
    with m f rm show ?thesis by (simp add: run)
  qed
next
  assume "onError options = None \<and> \<not> truthy (get_prop ctx ''previousData'')"
  then show "usePut_onError options e variables ctx s = s"
    by (simp add: usePut_onError_def)
next
  assume "onError doptions = None \<and> \<not> truthy (get_prop ctx ''previousData'')"
  then show "useDelete_onError doptions e idv ctx s = s"
    by (simp add: useDelete_onError_def)
qed

theorem no_rollback_without_snapshot_witness:
  "getQueryData
     (snd (usePut_mutate (\<lambda>req. Rejected (AxiosError (Some 500) ''Request failed with status code 500''))
             ''/posts/1''
             \<lparr>invalidateQueries = Some [''posts''], onMutate = None, onSuccess = None, onError = None,
              http_method = None\<rparr>
             (JObj [(''title'', JStr ''new'')])
             \<lparr>queries = (\<lambda>k. JUndefined), invalidated = [], requests = []\<rparr>))
     (JStr ''posts'')
   = JObj [(''title'', JStr ''new'')]
   \<and> getQueryData
     (snd (useDelete_mutate (\<lambda>msg. True)
             (\<lambda>req. Rejected (AxiosError (Some 500) ''Request failed with status code 500''))
             ''/posts''
             \<lparr>invalidateQueries = Some [''posts''], onMutate = None, onSuccess = None, onError = None,
              confirmMessage = None\<rparr>
             (JStr ''1'')
             \<lparr>queries = (\<lambda>k. JUndefined), invalidated = [], requests = []\<rparr>))
     (JStr ''posts'')
   = JUndefined
   \<and> usePut_onError
       \<lparr>invalidateQueries = Some [''posts''], onMutate = None, onSuccess = None, onError = None,
        http_method = None\<rparr>
       (AxiosError (Some 500) ''Request failed with status code 500'')
       (JObj [(''title'', JStr ''new'')])
       (JObj [(''previousData'', JNull), (''queryKey'', JStr ''posts'')])
       \<lparr>queries = (\<lambda>k. JUndefined)(JStr ''posts'' := JObj [(''title'', JStr ''new'')]),
        invalidated = [], requests = []\<rparr>
     = \<lparr>queries = (\<lambda>k. JUndefined)(JStr ''posts'' := JObj [(''title'', JStr ''new'')]),
        invalidated = [], requests = []\<rparr>"
proof -
  let ?st = "\<lparr>queries = (\<lambda>k. JUndefined), invalidated = [], requests = []\<rparr>"
  let ?e = "AxiosError (Some 500) ''Request failed with status code 500''"
  let ?po = "\<lparr>invalidateQueries = Some [''posts''], onMutate = None, onSuccess = None, onError = None,
              http_method = None\<rparr>"
  let ?do = "\<lparr>invalidateQueries = Some [''posts''], onMutate = None, onSuccess = None, onError = None,
              confirmMessage = None\<rparr>"
  have h: "\<not> truthy (getQueryData ?st (JStr ''posts''))" by (simp add: getQueryData_def)
  have p: "fst (usePut_mutate (\<lambda>req. Rejected ?e) ''/posts/1'' ?po (JObj [(''title'', JStr ''new'')]) ?st) = Inl ?e"
    by (simp add: usePut_mutate_def run_mutation_def usePut_onMutate_def usePut_mutationFn_def
        axiosDemo_request_def)
  have d: "fst (useDelete_mutate (\<lambda>msg. True) (\<lambda>req. Rejected ?e) ''/posts'' ?do (JStr ''1'') ?st) = Inl ?e"
    by (simp add: useDelete_mutate_def run_mutation_def useDelete_onMutate_def useDelete_mutationFn_def
        axiosDemo_request_def remove_item_def getQueryData_def)
  have c: "\<not> truthy (get_prop (JObj [(''previousData'', JNull), (''queryKey'', JStr ''posts'')]) ''previousData'')"
    by simp
  show ?thesis
    using no_rollback_without_snapshot[OF h, where options = ?po and doptions = ?do and ks = "[]"
        and e = ?e and axiosDemo = "\<lambda>req. Rejected ?e" and confirm = "\<lambda>msg. True"
        and url = "''/posts/1''" and variables = "JObj [(''title'', JStr ''new'')]"
        and ctx = "JObj [(''previousData'', JNull), (''queryKey'', JStr ''posts'')]"
        and s = "\<lparr>queries = (\<lambda>k. JUndefined)(JStr ''posts'' := JObj [(''title'', JStr ''new'')]),
                  invalidated = [], requests = []\<rparr>"] p
      no_rollback_without_snapshot[OF h, where doptions = ?do and ks = "[]"
        and e = ?e and axiosDemo = "\<lambda>req. Rejected ?e" and confirm = "\<lambda>msg. True"
        and url = "''/posts''" and idv = "JStr ''1''"] d c
    by (simp add: getQueryData_def setQueryData_def)
qed


end
